theory Spec2Isabelle
  imports Main "HOL-Library.Multiset"
begin

section \<open>BG-Wordle: the game engine of \<^verbatim>\<open>src/src/WordleGame.js\<close>\<close>

text \<open>
  The engine is the class \<^verbatim>\<open>WordleGame\<close>. Its private fields and the DOM elements it
  reads and writes are the state; every method is a function from state to state, and
  what a method sends to the presentation layer (alerts, animations) is returned beside
  the new state as a list of effects.

  JavaScript strings are sequences of UTF-16 code units; the Bulgarian letters all lie in
  the basic plane, one code unit each. A code unit is a \<open>nat\<close>, a string a list of them.
\<close>

type_synonym code_unit = nat
type_synonym word = "code_unit list"

subsection \<open>Configuration (\<^verbatim>\<open>src/src/config.js\<close>)\<close>

definition wordLength :: nat where
  "wordLength = 5"

definition girdLength :: nat where
  "girdLength = 30"

text \<open>\<^verbatim>\<open>config.keys\<close>: the thirty letters of the keyboard, with Enter and Delete.\<close>

definition config_keys :: "word list" where
  "config_keys =
    [[1071], [1042], [1045], [1056], [1058], [1066], [1059], [1048], [1054], [1055], [1063],
     [1040], [1057], [1044], [1060], [1043], [1061], [1049], [1050], [1051], [1064], [1065],
     [69, 110, 116, 101, 114], [1047], [1068], [1062], [1046], [1041], [1053], [1052], [1070],
     [68, 101, 108, 101, 116, 101]]"

definition reward :: int where
  "reward = 2"

definition penalty :: int where
  "penalty = 1"

definition rewardDuration :: nat where
  "rewardDuration = 2000"

definition penaltyDuration :: nat where
  "penaltyDuration = 2000"

subsection \<open>Tiles, keys and the state of a game\<close>

text \<open>
  \<^verbatim>\<open>tile.dataset.state\<close> and the status classes of a key take the same four values:
  \<^verbatim>\<open>'active-spot'\<close>, \<^verbatim>\<open>'correct-spot'\<close>, \<^verbatim>\<open>'wrong-spot'\<close>, \<^verbatim>\<open>'missing-spot'\<close>.
\<close>

datatype spot = ActiveSpot | CorrectSpot | WrongSpot | MissingSpot

text \<open>
  A tile is a DOM element with its text and two data attributes; \<open>None\<close> is an attribute
  that is not there (\<^verbatim>\<open>delete tile.dataset.letter\<close>). The letter of a tile is the one
  code unit \<^verbatim>\<open>pressKey\<close> receives from the controller, whose pattern
  (one code unit in the range U+0410 to U+044F) lets exactly one code unit through.
\<close>

record tile =
  textContent :: word
  letter :: "code_unit option"
  state :: "spot option"

text \<open>
  A key of the keyboard: its \<^verbatim>\<open>data-key\<close> attribute and the status classes added to its
  class list after the constant class \<^verbatim>\<open>'key'\<close>, in the order of their addition.
\<close>

record key =
  dataset_key :: word
  classList :: "spot list"

text \<open>
  The text of a span of the scoreboard: the bare caption that the interface is created
  with, or the caption followed by a number.
\<close>

datatype label = Caption | Counter int

record scoreboard =
  scoreItem :: "label option"
  highscoreItem :: "label option"

text \<open>
  The fields of \<^verbatim>\<open>WordleGame\<close>, and the item \<^verbatim>\<open>'bg-wordle-highscore'\<close> of the local
  storage (\<open>None\<close> when there is no item). Tiles and keys are referred to by their position
  in \<open>tiles\<close> and \<open>keys\<close>: an index stands for the reference to the element. Scores are
  JavaScript numbers that only ever hold small integers; they are \<open>int\<close> here.
\<close>

record game =
  tiles :: "tile list"
  keys :: "key list"
  targetWord :: word
  score :: int
  highscore :: int
  scoreboard :: scoreboard
  localStorage :: "int option"

subsection \<open>What the engine sends to the presentation layer\<close>

text \<open>
  A message is a template of \<^verbatim>\<open>config.templates\<close> with the values to substitute for
  its placeholders: \<open>Win r\<close> is the template \<^verbatim>\<open>win\<close> with \<open>r\<close> for \<^verbatim>\<open>{{reward}}\<close>,
  \<open>Lose w p\<close> the template \<^verbatim>\<open>lose\<close> with \<open>w\<close> for \<^verbatim>\<open>{{word}}\<close> and \<open>p\<close> for
  \<^verbatim>\<open>{{penalty}}\<close>. Its text is computed by \<open>render\<close> below.
\<close>

datatype message = NotEnoughLetters | NoSuchWord | Win int | Lose word int

datatype animation = Shake | Flip | Dance

text \<open>
  \<open>ShowAlert m d\<close>: \<^verbatim>\<open>#showAlert(m, d)\<close>, an alert shown for \<open>d\<close> milliseconds.
  \<open>PlayAnimation a ts\<close>: \<^verbatim>\<open>#playAnimation\<close> of the class \<open>a\<close> on the tiles \<open>ts\<close>.
\<close>

datatype effect = ShowAlert message nat | PlayAnimation animation "nat list"

subsection \<open>The text of a message\<close>

text \<open>
  The templates of \<^verbatim>\<open>config.templates\<close> that the alerts use, as code units:
  \<^verbatim>\<open>win\<close>, \<^verbatim>\<open>lose\<close>, \<^verbatim>\<open>notEnoughLetters\<close> and \<^verbatim>\<open>noSuchWord\<close>. The placeholders
  \<^verbatim>\<open>{{reward}}\<close>, \<^verbatim>\<open>{{word}}\<close> and \<^verbatim>\<open>{{penalty}}\<close> start with the code unit 123.
\<close>

definition template_win :: word where
  "template_win =
    [1041, 1088, 1072, 1074, 1086, 46, 32, 1058, 1080, 32, 1089, 1087, 1077, 1095, 1077, 1083,
     1080, 32, 123, 123, 114, 101, 119, 97, 114, 100, 125, 125, 32, 1090, 1086, 1095, 1082,
     1080, 33, 32, 1057, 1084, 1077, 1083, 1086, 32, 1085, 1072, 1087, 1088, 1077, 1076, 46]"

definition template_lose :: word where
  "template_lose =
    [1059, 1092, 1092, 46, 32, 1058, 1074, 1086, 1103, 1090, 1072, 32, 1076, 1091, 1084, 1072,
     32, 1073, 1077, 1096, 1077, 32, 34, 123, 123, 119, 111, 114, 100, 125, 125, 34, 46, 32,
     1047, 1072, 1075, 1091, 1073, 1080, 32, 123, 123, 112, 101, 110, 97, 108, 116, 121, 125,
     125, 32, 1090, 1086, 1095, 1082, 1072, 33]"

definition template_notEnoughLetters :: word where
  "template_notEnoughLetters =
    [1053, 1103, 1084, 1072, 32, 1076, 1086, 1089, 1090, 1072, 1090, 1098, 1095, 1085, 1086, 32,
     1073, 1091, 1082, 1074, 1080, 33]"

definition template_noSuchWord :: word where
  "template_noSuchWord =
    [1053, 1077, 32, 1089, 1098, 1097, 1077, 1089, 1090, 1074, 1091, 1074, 1072, 32, 1090, 1072,
     1082, 1072, 1074, 1072, 32, 1076, 1091, 1084, 1072, 33]"

text \<open>\<^verbatim>\<open>Number.prototype.toString()\<close> of an integer: its decimal digits, after a minus sign if negative.\<close>

fun decimal :: "nat \<Rightarrow> word" where
  "decimal n = (if n < 10 then [48 + n] else decimal (n div 10) @ [48 + n mod 10])"

declare decimal.simps [simp del]

definition toString :: "int \<Rightarrow> word" where
  "toString i = (if i < 0 then 45 # decimal (nat (- i)) else decimal (nat i))"

text \<open>
  \<^verbatim>\<open>string.replace(/pattern/, replacement)\<close> for a pattern that is a literal text: the
  first occurrence is replaced. \<^verbatim>\<open>replace_all\<close> is the same with the flag \<^verbatim>\<open>g\<close>, for a
  pattern that is not empty: every occurrence is replaced, from left to right, the search
  going on after each replaced occurrence (\<open>replace_from k\<close> first skips \<open>k\<close> code units).
  The replacement is inserted as it is: the engine's replacements are a word of the
  dictionary and a number, which hold no dollar sign.
\<close>

fun replace_first :: "word \<Rightarrow> word \<Rightarrow> word \<Rightarrow> word" where
  "replace_first pat rep [] = (if pat = [] then rep else [])"
| "replace_first pat rep (c # cs) =
    (if take (length pat) (c # cs) = pat then rep @ drop (length pat) (c # cs)
     else c # replace_first pat rep cs)"

fun replace_from :: "nat \<Rightarrow> word \<Rightarrow> word \<Rightarrow> word \<Rightarrow> word" where
  "replace_from k pat rep [] = []"
| "replace_from (Suc k) pat rep (c # cs) = replace_from k pat rep cs"
| "replace_from 0 pat rep (c # cs) =
    (if take (length pat) (c # cs) = pat then rep @ replace_from (length pat - 1) pat rep cs
     else c # replace_from 0 pat rep cs)"

definition replace_all :: "word \<Rightarrow> word \<Rightarrow> word \<Rightarrow> word" where
  "replace_all pat rep w = replace_from 0 pat rep w"

text \<open>The text of a message, as the argument of \<^verbatim>\<open>#showAlert\<close> computes it.\<close>

fun render :: "message \<Rightarrow> word" where
  "render NotEnoughLetters = template_notEnoughLetters"
| "render NoSuchWord = template_noSuchWord"
| "render (Win r) =
    replace_first [123, 123, 114, 101, 119, 97, 114, 100, 125, 125] (toString r) template_win"
| "render (Lose w p) =
    replace_all [123, 123, 112, 101, 110, 97, 108, 116, 121, 125, 125] (toString p)
      (replace_first [123, 123, 119, 111, 114, 100, 125, 125] w template_lose)"

subsection \<open>Utilities\<close>

text \<open>
  \<^verbatim>\<open>sampleFromArray(array)\<close> without a size returns
  \<^verbatim>\<open>array[Math.floor(Math.random() * array.length)]\<close>. The index drawn is an input of
  the model, \<open>rnd\<close>; for an empty array the read is out of range and gives
  \<^verbatim>\<open>undefined\<close>, here \<open>None\<close>.
\<close>

definition sampleFromArray :: "'a list \<Rightarrow> nat \<Rightarrow> 'a option" where
  "sampleFromArray array rnd = (if rnd < length array then Some (array ! rnd) else None)"

text \<open>
  \<^verbatim>\<open>key.toLocaleUpperCase()\<close> on the code units the controller lets through
  (U+0410 to U+044F): the small letters U+0430 to U+044F move down by 32, the capitals stay.
\<close>

definition toLocaleUpperCase :: "code_unit \<Rightarrow> code_unit" where
  "toLocaleUpperCase c = (if 1072 \<le> c \<and> c \<le> 1103 then c - 32 else c)"

text \<open>\<^verbatim>\<open>string[index]\<close>: \<^verbatim>\<open>undefined\<close> out of range.\<close>

definition charAt :: "word \<Rightarrow> nat \<Rightarrow> code_unit option" where
  "charAt w index = (if index < length w then Some (w ! index) else None)"

text \<open>The positions of the elements of an array that satisfy a predicate, in order.\<close>

definition positions :: "('a \<Rightarrow> bool) \<Rightarrow> 'a list \<Rightarrow> nat list" where
  "positions P xs = filter (\<lambda>i. P (xs ! i)) [0..<length xs]"

text \<open>
  The interface the controller creates (\<^verbatim>\<open>WordleUIController.createInterface\<close>): a
  grid of \<^verbatim>\<open>girdLength\<close> blank tiles, one key for each entry of \<^verbatim>\<open>config.keys\<close>, and
  a scoreboard with its two spans.
\<close>

definition createInterface_grid :: "tile list" where
  "createInterface_grid = replicate girdLength \<lparr>textContent = [], letter = None, state = None\<rparr>"

definition createInterface_keyboard :: "key list" where
  "createInterface_keyboard = map (\<lambda>k. \<lparr>dataset_key = k, classList = []\<rparr>) config_keys"

definition createInterface_scoreboard :: scoreboard where
  "createInterface_scoreboard = \<lparr>scoreItem = Some Caption, highscoreItem = Some Caption\<rparr>"

subsection \<open>Private methods\<close>

definition setTile :: "tile \<Rightarrow> code_unit \<Rightarrow> tile" where
  "setTile t k = t\<lparr>textContent := [k], letter := Some k, state := Some ActiveSpot\<rparr>"

definition resetTile :: "tile \<Rightarrow> tile" where
  "resetTile t = t\<lparr>textContent := [], letter := None, state := None\<rparr>"

text \<open>\<^verbatim>\<open>key.classList.add(c)\<close>: a class list holds a class once.\<close>

definition classList_add :: "spot \<Rightarrow> key \<Rightarrow> key" where
  "classList_add c k = k\<lparr>classList := (if c \<in> set (classList k) then classList k else classList k @ [c])\<rparr>"

text \<open>\<^verbatim>\<open>this.#keys.find(key => key.dataset.key === letter)\<close>, as the position of the key.\<close>

definition findKey :: "key list \<Rightarrow> code_unit \<Rightarrow> nat option" where
  "findKey ks l = find (\<lambda>k. dataset_key (ks ! k) = [l]) [0..<length ks]"

text \<open>
  The three branches of \<^verbatim>\<open>#flipTile\<close> (lines 261 to 270): the letter is compared with
  the target at the index of the tile in the guess, then looked for anywhere in the target.
\<close>

definition classify :: "word \<Rightarrow> nat \<Rightarrow> code_unit \<Rightarrow> spot" where
  "classify target index l =
    (if charAt target index = Some l then CorrectSpot
     else if l \<in> set target then WrongSpot
     else MissingSpot)"

text \<open>
  \<^verbatim>\<open>#flipTile(tile, index)\<close>: \<open>t\<close> is the position of the tile in the grid, \<open>index\<close> its
  position among the tiles of the guess. The method returns early when the tile has no
  letter or no key of the keyboard carries that letter. It is called with the active
  tiles only, whose positions lie in the grid.
\<close>

definition flipTile :: "nat \<Rightarrow> nat \<Rightarrow> game \<Rightarrow> game" where
  "flipTile t index s =
    (case letter (tiles s ! t) of
      None \<Rightarrow> s
    | Some l \<Rightarrow>
        (case findKey (keys s) l of
          None \<Rightarrow> s
        | Some k \<Rightarrow>
            s\<lparr>tiles := (tiles s)[t := (tiles s ! t)\<lparr>state := Some (classify (targetWord s) index l)\<rparr>],
              keys := (keys s)[k := classList_add (classify (targetWord s) index l) (keys s ! k)]\<rparr>))"

text \<open>
  \<^verbatim>\<open>#updateScore()\<close>: nothing happens when the scoreboard lacks one of its two spans.
\<close>

definition updateScore :: "game \<Rightarrow> game" where
  "updateScore s =
    (if scoreItem (scoreboard s) = None \<or> highscoreItem (scoreboard s) = None then s
     else
       (let s1 = (if score s > highscore s
                  then s\<lparr>localStorage := Some (score s), highscore := score s\<rparr>
                  else s)
        in s1\<lparr>scoreboard := \<lparr>scoreItem = Some (Counter (score s1)),
                               highscoreItem = Some (Counter (highscore s1))\<rparr>\<rparr>))"

text \<open>
  \<^verbatim>\<open>#setRandomTargetWord()\<close>. With an empty dictionary the field becomes
  \<^verbatim>\<open>undefined\<close>; no guess is accepted then, so the field is never read, and the model
  keeps the empty word in it.
\<close>

definition setRandomTargetWord :: "word list \<Rightarrow> nat \<Rightarrow> game \<Rightarrow> game" where
  "setRandomTargetWord dictionary rnd s =
    s\<lparr>targetWord := (case sampleFromArray dictionary rnd of Some w \<Rightarrow> w | None \<Rightarrow> [])\<rparr>"

definition initialize :: "word list \<Rightarrow> nat \<Rightarrow> game \<Rightarrow> game" where
  "initialize dictionary rnd s =
    (let s1 = setRandomTargetWord dictionary rnd (updateScore s)
     in s1\<lparr>keys := map (\<lambda>k. k\<lparr>classList := []\<rparr>) (keys s1),
            tiles := map resetTile (tiles s1)\<rparr>)"

text \<open>\<^verbatim>\<open>isGridFull\<close>: every tile of the grid holds a letter.\<close>

definition isGridFull :: "game \<Rightarrow> bool" where
  "isGridFull s = list_all (\<lambda>t. letter t \<noteq> None) (tiles s)"

text \<open>
  \<^verbatim>\<open>#checkWinLose(guess, tiles)\<close>. The alert and the animation are shown first, then the
  next round is initialised.
\<close>

definition checkWinLose :: "word list \<Rightarrow> nat \<Rightarrow> word \<Rightarrow> nat list \<Rightarrow> game \<Rightarrow> game \<times> effect list" where
  "checkWinLose dictionary rnd guess ts s =
    (if guess = targetWord s then
       (initialize dictionary rnd (s\<lparr>score := score s + reward\<rparr>),
        [ShowAlert (Win reward) rewardDuration, PlayAnimation Dance ts])
     else if isGridFull s then
       (initialize dictionary rnd (if score s > 0 then s\<lparr>score := score s - penalty\<rparr> else s),
        [ShowAlert (Lose (targetWord s) penalty) penaltyDuration])
     else (s, []))"

subsection \<open>Public methods\<close>

definition activeTiles :: "game \<Rightarrow> nat list" where
  "activeTiles s = positions (\<lambda>t. state t = Some ActiveSpot) (tiles s)"

text \<open>
  The word of the guess is the concatenation of the letters of the active tiles; a
  missing letter would be concatenated as the text \<^verbatim>\<open>undefined\<close>.
\<close>

definition guessedWord :: "game \<Rightarrow> word" where
  "guessedWord s =
    concat (map (\<lambda>t. case letter (tiles s ! t) of
                        Some l \<Rightarrow> [l]
                      | None \<Rightarrow> [117, 110, 100, 101, 102, 105, 110, 101, 100])
                (activeTiles s))"

text \<open>
  The flip animation calls \<^verbatim>\<open>#flipTile(tile, index)\<close> once for each active tile. The
  calls are independent of their order: each one sets the state of its own tile and adds
  a class to a key.
\<close>

definition flipTiles :: "nat list \<Rightarrow> game \<Rightarrow> game" where
  "flipTiles ts s = fold (\<lambda>(index, t). flipTile t index) (enumerate 0 ts) s"

text \<open>
  \<^verbatim>\<open>submitGuess()\<close>, run to its end: the two checks, the flips, and
  \<^verbatim>\<open>#checkWinLose\<close>, which the last flipped tile triggers. The animations only delay
  these steps; here the whole submission is one step, with no key pressed or deleted
  before \<^verbatim>\<open>#checkWinLose\<close> runs. The keys that the source lets in before that are added
  by \<open>submitGuessThen\<close> below.
\<close>

definition submitGuess :: "word list \<Rightarrow> nat \<Rightarrow> game \<Rightarrow> game \<times> effect list" where
  "submitGuess dictionary rnd s =
    (if length (activeTiles s) \<noteq> wordLength then
       (s, [ShowAlert NotEnoughLetters 1000, PlayAnimation Shake (activeTiles s)])
     else if guessedWord s \<notin> set dictionary then
       (s, [ShowAlert NoSuchWord 1000, PlayAnimation Shake (activeTiles s)])
     else
       (let r = checkWinLose dictionary rnd (guessedWord s) (activeTiles s)
                  (flipTiles (activeTiles s) s)
        in (fst r, PlayAnimation Flip (activeTiles s) # snd r)))"

definition pressKey :: "code_unit \<Rightarrow> game \<Rightarrow> game" where
  "pressKey k s =
    (if length (activeTiles s) \<ge> wordLength then s
     else
       (case find (\<lambda>t. letter (tiles s ! t) = None) [0..<length (tiles s)] of
         None \<Rightarrow> s
       | Some t \<Rightarrow> s\<lparr>tiles := (tiles s)[t := setTile (tiles s ! t) (toLocaleUpperCase k)]\<rparr>))"

definition deleteKey :: "game \<Rightarrow> game" where
  "deleteKey s =
    (case find (\<lambda>t. state (tiles s ! t) = Some ActiveSpot) (rev [0..<length (tiles s)]) of
      None \<Rightarrow> s
    | Some t \<Rightarrow> s\<lparr>tiles := (tiles s)[t := resetTile (tiles s ! t)]\<rparr>)"

text \<open>
  The feedback of a guess: the states of the tiles of the guess once they are flipped,
  before \<^verbatim>\<open>#checkWinLose\<close> runs.
\<close>

definition feedback :: "game \<Rightarrow> spot option list" where
  "feedback s = map (\<lambda>t. state (tiles (flipTiles (activeTiles s) s) ! t)) (activeTiles s)"

text \<open>
  The constructor: the elements of the interface, the stored high score
  (\<^verbatim>\<open>Number(localStorage.getItem('bg-wordle-highscore')) || 0\<close>), then \<^verbatim>\<open>#initialize()\<close>.
\<close>

definition constructor :: "word list \<Rightarrow> nat \<Rightarrow> scoreboard \<Rightarrow> tile list \<Rightarrow> key list \<Rightarrow> int option \<Rightarrow> game" where
  "constructor dictionary rnd sb grid keyboard stored =
    initialize dictionary rnd
      \<lparr>tiles = grid, keys = keyboard, targetWord = [], score = 0,
       highscore = (case stored of Some n \<Rightarrow> n | None \<Rightarrow> 0),
       scoreboard = sb, localStorage = stored\<rparr>"

subsection \<open>The invariant of the grid\<close>

text \<open>
  \<^verbatim>\<open>#setTile\<close> writes the letter and the state of a tile together, \<^verbatim>\<open>#resetTile\<close>
  deletes them together, and \<^verbatim>\<open>#flipTile\<close> only replaces a state: a tile has a letter
  exactly when it has a state.
\<close>

definition wellFormed :: "game \<Rightarrow> bool" where
  "wellFormed s = list_all (\<lambda>t. (letter t = None) = (state t = None)) (tiles s)"

section \<open>The feedback of the specification\<close>

text \<open>
  The specification names three statuses and computes them in two passes over the guess,
  with a multiset of the letters of the target that are still unclaimed. The definitions
  of this section follow the words of the specification (section 4.2), not the code.
\<close>

datatype LetterStatus = Correct | Present | Absent

text \<open>The status a tile shows: none while it is blank or active.\<close>

fun letterStatus :: "spot option \<Rightarrow> LetterStatus option" where
  "letterStatus (Some CorrectSpot) = Some Correct"
| "letterStatus (Some WrongSpot) = Some Present"
| "letterStatus (Some MissingSpot) = Some Absent"
| "letterStatus (Some ActiveSpot) = None"
| "letterStatus None = None"

text \<open>Pass 1: every exact match consumes one occurrence of its letter.\<close>

fun pass1 :: "word \<Rightarrow> word \<Rightarrow> code_unit multiset \<Rightarrow> code_unit multiset" where
  "pass1 (g # gs) (t # ts) m = pass1 gs ts (if g = t then m - {#g#} else m)"
| "pass1 _ _ m = m"

text \<open>
  Pass 2: a position that is no exact match is \<open>Present\<close> when the multiset still holds
  its letter, which it then consumes, and \<open>Absent\<close> otherwise.
\<close>

fun pass2 :: "word \<Rightarrow> word \<Rightarrow> code_unit multiset \<Rightarrow> LetterStatus list" where
  "pass2 (g # gs) (t # ts) m =
    (if g = t then Correct # pass2 gs ts m
     else if 1 \<le> count m g then Present # pass2 gs ts (m - {#g#})
     else Absent # pass2 gs ts m)"
| "pass2 _ _ m = []"

definition twoPass :: "word \<Rightarrow> word \<Rightarrow> LetterStatus list" where
  "twoPass guess target = pass2 guess target (pass1 guess target (mset target))"

text \<open>
  What the code computes instead, position by position and with no count: an exact match
  is \<open>Correct\<close>, any other letter that occurs in the target is \<open>Present\<close>.
\<close>

definition singlePass :: "word \<Rightarrow> word \<Rightarrow> LetterStatus list" where
  "singlePass guess target =
    map (\<lambda>(g, t). if g = t then Correct else if g \<in> set target then Present else Absent)
      (zip guess target)"

text \<open>
  The number of positions of a guess that hold the letter \<open>c\<close> and are marked
  \<open>Correct\<close> or \<open>Present\<close> in a feedback.
\<close>

definition marked :: "code_unit \<Rightarrow> word \<Rightarrow> spot option list \<Rightarrow> nat" where
  "marked c guess fb =
    length (filter (\<lambda>(l, st). l = c \<and> (st = Some CorrectSpot \<or> st = Some WrongSpot)) (zip guess fb))"

section \<open>Sequences of operations\<close>

text \<open>
  The three public methods, as the controller calls them for a letter, for Enter and for
  Delete or Backspace. A submission carries the index that would be drawn for the next
  target if the round ends.
\<close>

datatype operation = PressKey code_unit | DeleteKey | SubmitGuess nat

definition perform :: "word list \<Rightarrow> operation \<Rightarrow> game \<Rightarrow> game \<times> effect list" where
  "perform dictionary op s =
    (case op of
      PressKey k \<Rightarrow> (pressKey k s, [])
    | DeleteKey \<Rightarrow> (deleteKey s, [])
    | SubmitGuess rnd \<Rightarrow> submitGuess dictionary rnd s)"

fun run :: "word list \<Rightarrow> operation list \<Rightarrow> game \<Rightarrow> game" where
  "run dictionary [] s = s"
| "run dictionary (op # ops) s = run dictionary ops (fst (perform dictionary op s))"

text \<open>
  A round ends where \<^verbatim>\<open>#checkWinLose\<close> shows the win or the lose message: these are the
  two branches that call \<^verbatim>\<open>#initialize()\<close>.
\<close>

fun endsRound :: "effect \<Rightarrow> bool" where
  "endsRound (ShowAlert (Win r) d) = True"
| "endsRound (ShowAlert (Lose w p) d) = True"
| "endsRound e = False"

text \<open>
  Operations within one round: the result is \<open>None\<close> as soon as an operation ends the
  round.
\<close>

fun runRound :: "word list \<Rightarrow> operation list \<Rightarrow> game \<Rightarrow> game option" where
  "runRound dictionary [] s = Some s"
| "runRound dictionary (op # ops) s =
    (if list_ex endsRound (snd (perform dictionary op s)) then None
     else runRound dictionary ops (fst (perform dictionary op s)))"

text \<open>
  Modelled from the spec: the stylesheet that colours a key from its classes is not among
  the sources. A key shows the best of the statuses whose classes it carries
  (best-status-wins): \<open>Correct\<close> before \<open>Present\<close> before \<open>Absent\<close>, and none while it has
  no status class.
\<close>

definition displayedStatus :: "key \<Rightarrow> LetterStatus option" where
  "displayedStatus k =
    (if CorrectSpot \<in> set (classList k) then Some Correct
     else if WrongSpot \<in> set (classList k) then Some Present
     else if MissingSpot \<in> set (classList k) then Some Absent
     else None)"

text \<open>The tiles of the rows that are committed: those with a status.\<close>

definition classified :: "tile \<Rightarrow> bool" where
  "classified t = (state t = Some CorrectSpot \<or> state t = Some WrongSpot \<or> state t = Some MissingSpot)"

text \<open>
  The attempts used in a round: the committed rows of the grid.
\<close>

definition attemptsUsed :: "game \<Rightarrow> nat" where
  "attemptsUsed s = length (filter classified (tiles s)) div wordLength"

subsection \<open>Keys pressed before the round is evaluated\<close>

text \<open>
  The promise of \<^verbatim>\<open>submitGuess()\<close> resolves when the last tile has been flipped, and
  the controller, which awaits it, accepts input again. \<^verbatim>\<open>#checkWinLose\<close> is registered
  by that flip for the end of the next transition of the last tile, so it reads the game
  as the keys pressed and deleted in between have left it.
\<close>

datatype keystroke = Press code_unit | Delete

fun stroke :: "keystroke \<Rightarrow> game \<Rightarrow> game" where
  "stroke (Press k) s = pressKey k s"
| "stroke Delete s = deleteKey s"

text \<open>
  A submission, the keys \<open>ks\<close> pressed and deleted after it has resolved, and then the
  call of \<^verbatim>\<open>#checkWinLose\<close> that it registered, with the guess and the tiles of the
  submission. A rejected submission registers no call.
\<close>

definition submitGuessThen :: "word list \<Rightarrow> nat \<Rightarrow> keystroke list \<Rightarrow> game \<Rightarrow> game \<times> effect list" where
  "submitGuessThen dictionary rnd ks s =
    (if length (activeTiles s) \<noteq> wordLength then
       (fold stroke ks s, [ShowAlert NotEnoughLetters 1000, PlayAnimation Shake (activeTiles s)])
     else if guessedWord s \<notin> set dictionary then
       (fold stroke ks s, [ShowAlert NoSuchWord 1000, PlayAnimation Shake (activeTiles s)])
     else
       (let r = checkWinLose dictionary rnd (guessedWord s) (activeTiles s)
                  (fold stroke ks (flipTiles (activeTiles s) s))
        in (fst r, PlayAnimation Flip (activeTiles s) # snd r)))"

section \<open>Example games\<close>

text \<open>
  Three words as lists of code units, a dictionary of them, and the game in which a word
  has been typed on the first row of a new grid, the target being the first word of the
  dictionary.
\<close>

definition BORKA :: word where
  "BORKA = [1041, 1054, 1056, 1050, 1040]"

definition BORKO :: word where
  "BORKO = [1041, 1054, 1056, 1050, 1054]"

definition KORAB :: word where
  "KORAB = [1050, 1054, 1056, 1040, 1041]"

definition example_dictionary :: "word list" where
  "example_dictionary = [BORKA, BORKO, KORAB]"

definition new_game :: game where
  "new_game = constructor example_dictionary 0 createInterface_scoreboard createInterface_grid
     createInterface_keyboard None"

definition typed :: "word \<Rightarrow> game" where
  "typed w = fold pressKey w new_game"

text \<open>
  Games in the middle of a round, written out: \<open>n\<close> rows hold the committed guess KORAB,
  the word \<open>w\<close> is typed on the next row, the target is BORKA and the score is \<open>sc\<close>.
  The keys carry the classes that the guess KORAB gives them.
\<close>

definition blank :: tile where
  "blank = \<lparr>textContent = [], letter = None, state = None\<rparr>"

definition committed :: "word \<Rightarrow> spot list \<Rightarrow> tile list" where
  "committed w sts =
    map (\<lambda>(l, st). \<lparr>textContent = [l], letter = Some l, state = Some st\<rparr>) (zip w sts)"

definition example_keys :: "(word \<times> spot list) list \<Rightarrow> key list" where
  "example_keys cls =
    map (\<lambda>k. \<lparr>dataset_key = k, classList = (case map_of cls k of Some c \<Rightarrow> c | None \<Rightarrow> [])\<rparr>)
      config_keys"

definition playing :: "nat \<Rightarrow> word \<Rightarrow> int \<Rightarrow> game" where
  "playing n w sc =
    \<lparr>tiles = concat (replicate n (committed KORAB [WrongSpot, CorrectSpot, CorrectSpot, WrongSpot, WrongSpot]))
        @ map (setTile blank) w @ replicate (girdLength - wordLength * n - length w) blank,
     keys = example_keys (if n = 0 then []
        else [([1050], [WrongSpot]), ([1054], [CorrectSpot]), ([1056], [CorrectSpot]),
              ([1040], [WrongSpot]), ([1041], [WrongSpot])]),
     targetWord = BORKA, score = sc, highscore = 2,
     scoreboard = \<lparr>scoreItem = Some (Counter sc), highscoreItem = Some (Counter 2)\<rparr>,
     localStorage = Some 2\<rparr>"

section \<open>Properties of the flips\<close>

subsection \<open>One flip\<close>

lemma findKey_Some: "findKey ks l = Some k \<Longrightarrow> k < length ks \<and> dataset_key (ks ! k) = [l]"
  unfolding findKey_def by (auto simp: find_Some_iff)

lemma findKey_cong:
  assumes "map dataset_key ks' = map dataset_key ks"
  shows "findKey ks' l = findKey ks l"
proof -
  from assms have len: "length ks' = length ks" by (metis length_map)
  have "\<And>k. k < length ks \<Longrightarrow> dataset_key (ks' ! k) = dataset_key (ks ! k)"
    using assms len by (metis nth_map)
  then show ?thesis unfolding findKey_def len by (intro find_cong) auto
qed

lemma findKey_exists:
  assumes "[l] \<in> dataset_key ` set ks"
  shows "findKey ks l \<noteq> None"
proof -
  from assms obtain k where "k < length ks" "dataset_key (ks ! k) = [l]"
    by (auto simp: in_set_conv_nth)
  then show ?thesis unfolding findKey_def by (auto simp: find_None_iff)
qed

lemma flipTile_frame [simp]:
  "targetWord (flipTile t i s) = targetWord s"
  "score (flipTile t i s) = score s"
  "highscore (flipTile t i s) = highscore s"
  "scoreboard (flipTile t i s) = scoreboard s"
  "localStorage (flipTile t i s) = localStorage s"
  "length (tiles (flipTile t i s)) = length (tiles s)"
  "length (keys (flipTile t i s)) = length (keys s)"
  by (simp_all add: flipTile_def split: option.splits)

lemma map_update_same:
  assumes "f (xs ! t) = f v"
  shows "map f (xs[t := v]) = map f xs"
proof (cases "t < length xs")
  case True
  with assms show ?thesis by (simp add: map_update list_update_same_conv)
next
  case False
  then have "xs[t := v] = xs" by (simp add: list_update_beyond)
  then show ?thesis by simp
qed

lemma flipTile_letters [simp]: "map letter (tiles (flipTile t i s)) = map letter (tiles s)"
  by (auto simp: flipTile_def map_update_same split: option.splits)

lemma flipTile_dataset_keys [simp]: "map dataset_key (keys (flipTile t i s)) = map dataset_key (keys s)"
  by (auto simp: flipTile_def map_update_same classList_add_def split: option.splits)

lemma flipTile_other: "u \<noteq> t \<Longrightarrow> tiles (flipTile t i s) ! u = tiles s ! u"
  by (simp add: flipTile_def split: option.splits)

lemma flipTile_state:
  "t < length (tiles s) \<Longrightarrow> letter (tiles s ! t) = Some l \<Longrightarrow> findKey (keys s) l \<noteq> None
   \<Longrightarrow> state (tiles (flipTile t i s) ! t) = Some (classify (targetWord s) i l)"
  by (auto simp: flipTile_def split: option.splits)


subsection \<open>The flips of a guess\<close>

lemma flipTiles_frame:
  "targetWord (fold (\<lambda>(index, t). flipTile t index) xs s) = targetWord s
   \<and> score (fold (\<lambda>(index, t). flipTile t index) xs s) = score s
   \<and> highscore (fold (\<lambda>(index, t). flipTile t index) xs s) = highscore s
   \<and> scoreboard (fold (\<lambda>(index, t). flipTile t index) xs s) = scoreboard s
   \<and> localStorage (fold (\<lambda>(index, t). flipTile t index) xs s) = localStorage s
   \<and> map letter (tiles (fold (\<lambda>(index, t). flipTile t index) xs s)) = map letter (tiles s)
   \<and> map dataset_key (keys (fold (\<lambda>(index, t). flipTile t index) xs s)) = map dataset_key (keys s)"
  by (induction xs arbitrary: s) (simp_all add: case_prod_beta)

lemma fold_flipTile_other:
  "u \<notin> snd ` set xs \<Longrightarrow> tiles (fold (\<lambda>(index, t). flipTile t index) xs s) ! u = tiles s ! u"
  by (induction xs arbitrary: s) (auto simp: flipTile_other)

lemma fold_flipTile_state:
  "distinct (map snd xs) \<Longrightarrow> (i, t) \<in> set xs \<Longrightarrow> t < length (tiles s)
   \<Longrightarrow> letter (tiles s ! t) = Some l \<Longrightarrow> findKey (keys s) l \<noteq> None
   \<Longrightarrow> state (tiles (fold (\<lambda>(index, t). flipTile t index) xs s) ! t)
       = Some (classify (targetWord s) i l)"
proof (induction xs arbitrary: s)
  case Nil
  then show ?case by simp
next
  case (Cons x xs)
  obtain i0 t0 where x: "x = (i0, t0)" by (cases x)
  let ?s1 = "flipTile t0 i0 s"
  show ?case
  proof (cases "(i, t) = x")
    case True
    with x have it: "i = i0" "t = t0" by simp_all
    from Cons.prems(1) x it have "t \<notin> snd ` set xs" by simp
    then have "tiles (fold (\<lambda>(index, t). flipTile t index) xs ?s1) ! t = tiles ?s1 ! t"
      by (rule fold_flipTile_other)
    with it x flipTile_state[OF Cons.prems(3) Cons.prems(4) Cons.prems(5), of i] show ?thesis
      by simp
  next
    case False
    with Cons.prems(2) have mem: "(i, t) \<in> set xs" by simp
    from Cons.prems(1) have d: "distinct (map snd xs)" by simp
    have len: "t < length (tiles ?s1)" using Cons.prems(3) by simp
    have "map letter (tiles ?s1) ! t = map letter (tiles s) ! t" by simp
    with Cons.prems(3) Cons.prems(4) have let1: "letter (tiles ?s1 ! t) = Some l"
      by (metis flipTile_frame(6) nth_map)
    have key1: "findKey (keys ?s1) l \<noteq> None"
      using Cons.prems(5) findKey_cong[OF flipTile_dataset_keys] by simp
    from Cons.IH[OF d mem len let1 key1] x show ?thesis by simp
  qed
qed

lemma set_positions: "set (positions P xs) = {i. i < length xs \<and> P (xs ! i)}"
  by (auto simp: positions_def)

lemma distinct_positions: "distinct (positions P xs)"
  by (simp add: positions_def)

lemma activeTiles_mem:
  "t \<in> set (activeTiles s) \<Longrightarrow> t < length (tiles s) \<and> state (tiles s ! t) = Some ActiveSpot"
  by (simp add: activeTiles_def set_positions)

lemma wellFormed_nth:
  "wellFormed s \<Longrightarrow> t < length (tiles s) \<Longrightarrow> (letter (tiles s ! t) = None) = (state (tiles s ! t) = None)"
  by (simp add: wellFormed_def list_all_length)

lemma active_has_letter:
  assumes "wellFormed s" "t \<in> set (activeTiles s)"
  shows "\<exists>l. letter (tiles s ! t) = Some l"
proof -
  from activeTiles_mem[OF assms(2)] wellFormed_nth[OF assms(1), of t]
  have "letter (tiles s ! t) \<noteq> None" by simp
  then show ?thesis by auto
qed

lemma guessedWord_map:
  assumes "wellFormed s"
  shows "guessedWord s = map (\<lambda>t. the (letter (tiles s ! t))) (activeTiles s)"
proof -
  have "map (\<lambda>t. case letter (tiles s ! t) of Some l \<Rightarrow> [l]
                    | None \<Rightarrow> [117, 110, 100, 101, 102, 105, 110, 101, 100]) (activeTiles s)
        = map (\<lambda>t. [the (letter (tiles s ! t))]) (activeTiles s)"
  proof (rule map_cong[OF refl])
    fix t assume "t \<in> set (activeTiles s)"
    from active_has_letter[OF assms this] obtain l where "letter (tiles s ! t) = Some l" ..
    then show "(case letter (tiles s ! t) of Some l \<Rightarrow> [l]
                | None \<Rightarrow> [117, 110, 100, 101, 102, 105, 110, 101, 100]) = [the (letter (tiles s ! t))]"
      by simp
  qed
  then have "guessedWord s = concat (map (\<lambda>t. [the (letter (tiles s ! t))]) (activeTiles s))"
    unfolding guessedWord_def by (rule arg_cong)
  then show ?thesis by simp
qed

lemma feedback_classify:
  assumes wf: "wellFormed s"
    and keys: "\<forall>l\<in>set (guessedWord s). [l] \<in> dataset_key ` set (keys s)"
  shows "feedback s = map (\<lambda>(j, l). Some (classify (targetWord s) j l)) (enumerate 0 (guessedWord s))"
proof (rule nth_equalityI)
  show "length (feedback s) = length (map (\<lambda>(j, l). Some (classify (targetWord s) j l)) (enumerate 0 (guessedWord s)))"
    by (simp add: feedback_def guessedWord_map[OF wf])
next
  fix j assume "j < length (feedback s)"
  then have j: "j < length (activeTiles s)" by (simp add: feedback_def)
  let ?A = "activeTiles s"
  let ?t = "?A ! j"
  from j have mem: "?t \<in> set ?A" by simp
  from active_has_letter[OF wf mem] obtain l where l: "letter (tiles s ! ?t) = Some l" ..
  with j have gl: "guessedWord s ! j = l" by (simp add: guessedWord_map[OF wf])
  from j have "l \<in> set (guessedWord s)" using gl by (metis guessedWord_map[OF wf] length_map nth_mem)
  with keys have key: "findKey (keys s) l \<noteq> None" by (simp add: findKey_exists)
  have d: "distinct (map snd (enumerate 0 ?A))" by (simp add: activeTiles_def distinct_positions)
  have m: "(j, ?t) \<in> set (enumerate 0 ?A)" using j by (simp add: in_set_enumerate_eq)
  from activeTiles_mem[OF mem] have len: "?t < length (tiles s)" by simp
  from fold_flipTile_state[OF d m len l key]
  have "feedback s ! j = Some (classify (targetWord s) j l)"
    using j by (simp add: feedback_def flipTiles_def)
  moreover have "j < length (guessedWord s)" using j by (simp add: guessedWord_map[OF wf])
  ultimately show "feedback s ! j = map (\<lambda>(j, l). Some (classify (targetWord s) j l)) (enumerate 0 (guessedWord s)) ! j"
    using gl by (simp add: nth_enumerate_eq)
qed

lemma classify_singlePass:
  assumes "length guess = length target"
  shows "map (\<lambda>(j, l). letterStatus (Some (classify target j l))) (enumerate 0 guess)
         = map Some (singlePass guess target)"
proof (rule nth_equalityI)
  show "length (map (\<lambda>(j, l). letterStatus (Some (classify target j l))) (enumerate 0 guess))
        = length (map Some (singlePass guess target))"
    using assms by (simp add: singlePass_def)
next
  fix j assume "j < length (map (\<lambda>(j, l). letterStatus (Some (classify target j l))) (enumerate 0 guess))"
  then have j: "j < length guess" by simp
  with assms have "j < length target" by simp
  with j show "map (\<lambda>(j, l). letterStatus (Some (classify target j l))) (enumerate 0 guess) ! j
        = map Some (singlePass guess target) ! j"
    by (auto simp: singlePass_def nth_enumerate_eq classify_def charAt_def)
qed

lemma feedback_singlePass:
  assumes wf: "wellFormed s"
    and len: "length (guessedWord s) = length (targetWord s)"
    and keys: "\<forall>l\<in>set (guessedWord s). [l] \<in> dataset_key ` set (keys s)"
  shows "map letterStatus (feedback s) = map Some (singlePass (guessedWord s) (targetWord s))"
proof -
  have "map letterStatus (feedback s)
        = map (\<lambda>(j, l). letterStatus (Some (classify (targetWord s) j l))) (enumerate 0 (guessedWord s))"
    by (simp add: feedback_classify[OF wf keys] case_prod_beta)
  with classify_singlePass[OF len] show ?thesis by simp
qed


section \<open>The two passes against the single pass\<close>

lemma pass1_subset: "pass1 gs ts m \<subseteq># m"
proof (induction gs ts m rule: pass1.induct)
  case (1 g gs t ts m)
  have "(if g = t then m - {#g#} else m) \<subseteq># m" by simp
  with 1 show ?case by (metis pass1.simps(1) subset_mset.order_trans)
qed simp_all

lemma pass2_rel:
  "length gs = length ts \<Longrightarrow> set_mset m \<subseteq> T
   \<Longrightarrow> list_all2 (\<lambda>a b. a = b \<or> (a = Absent \<and> b = Present)) (pass2 gs ts m)
         (map (\<lambda>(g, t). if g = t then Correct else if g \<in> T then Present else Absent) (zip gs ts))"
proof (induction gs ts arbitrary: m rule: list_induct2)
  case Nil
  then show ?case by simp
next
  case (Cons g gs t ts)
  have sub: "set_mset (m - {#g#}) \<subseteq> T"
    using Cons.prems by (meson in_diffD subsetD subsetI)
  from Cons.IH[OF sub] Cons.IH[OF Cons.prems] Cons.prems show ?case
    by (auto simp: count_greater_eq_one_iff not_in_iff)
qed

lemma count_zip_fst:
  "length gs = length ts \<Longrightarrow> length (filter (\<lambda>p. fst p = c) (zip gs ts)) = count_list gs c"
  by (induction gs ts rule: list_induct2) auto

subsection \<open>When the two passes and the single pass agree\<close>

lemma pass1_diff:
  "length gs = length ts \<Longrightarrow>
   pass1 gs ts m = m - mset (map fst (filter (\<lambda>(g, t). g = t) (zip gs ts)))"
  by (induction gs ts arbitrary: m rule: list_induct2) simp_all

lemma exact_subset:
  "length gs = length ts \<Longrightarrow>
   mset (map fst (filter (\<lambda>(g, t). g = t) (zip gs ts))) \<subseteq># mset ts"
proof (induction gs ts rule: list_induct2)
  case Nil
  show ?case by simp
next
  case (Cons g gs t ts)
  then show ?case by (auto intro: subset_mset.order_trans)
qed

lemma exact_inexact:
  "length gs = length ts \<Longrightarrow>
   mset (map fst (filter (\<lambda>(g, t). g \<noteq> t) (zip gs ts)))
     + mset (map fst (filter (\<lambda>(g, t). g = t) (zip gs ts))) = mset gs"
  by (induction gs ts rule: list_induct2) simp_all

lemma pass2_eq_iff:
  "length gs = length ts \<Longrightarrow> set_mset m \<subseteq> T \<Longrightarrow>
   (pass2 gs ts m = map (\<lambda>(g, t). if g = t then Correct else if g \<in> T then Present else Absent) (zip gs ts))
   = (\<forall>c\<in>T. count (mset (map fst (filter (\<lambda>(g, t). g \<noteq> t) (zip gs ts)))) c \<le> count m c)"
proof (induction gs ts arbitrary: m rule: list_induct2)
  case Nil
  show ?case by simp
next
  case (Cons g gs t ts)
  let ?ne = "mset (map fst (filter (\<lambda>(g, t). g \<noteq> t) (zip gs ts)))"
  show ?case
  proof (cases "g = t")
    case True
    with Cons.IH[OF Cons.prems] show ?thesis by simp
  next
    case False
    show ?thesis
    proof (cases "g \<in> T")
      case nT: False
      with Cons.prems have "count m g = 0" by (meson not_in_iff subsetD)
      moreover have "(\<forall>c\<in>T. count (add_mset g ?ne) c \<le> count m c) = (\<forall>c\<in>T. count ?ne c \<le> count m c)"
        using nT by (intro ball_cong refl) auto
      ultimately show ?thesis using False nT Cons.IH[OF Cons.prems] by simp
    next
      case inT: True
      show ?thesis
      proof (cases "count m g = 0")
        case True
        then have "\<not> (\<forall>c\<in>T. count (add_mset g ?ne) c \<le> count m c)"
          using inT by (auto intro!: bexI[of _ g])
        with True False inT show ?thesis by simp
      next
        case pos: False
        have sub: "set_mset (m - {#g#}) \<subseteq> T"
          using Cons.prems by (meson in_diffD subsetD subsetI)
        from pos obtain k where k: "count m g = Suc k" by (cases "count m g") auto
        have "(count (add_mset g ?ne) c \<le> count m c) = (count ?ne c \<le> count (m - {#g#}) c)" for c
          using k by (cases "c = g") (simp_all del: mset_map mset_filter)
        then have "(\<forall>c\<in>T. count (add_mset g ?ne) c \<le> count m c)
            = (\<forall>c\<in>T. count ?ne c \<le> count (m - {#g#}) c)"
          by simp
        with pos False inT Cons.IH[OF sub] show ?thesis by simp
      qed
    qed
  qed
qed

lemma twoPass_eq_iff:
  assumes "length guess = length target"
  shows "(twoPass guess target = singlePass guess target)
    = (\<forall>c\<in>set target. count_list guess c \<le> count_list target c)"
proof -
  let ?e = "mset (map fst (filter (\<lambda>(g, t). g = t) (zip guess target)))"
  let ?ne = "mset (map fst (filter (\<lambda>(g, t). g \<noteq> t) (zip guess target)))"
  have m: "pass1 guess target (mset target) = mset target - ?e"
    using assms by (rule pass1_diff)
  have sub: "set_mset (mset target - ?e) \<subseteq> set target"
    by (metis in_diffD set_mset_mset subsetI)
  have e: "?e \<subseteq># mset target" using assms by (rule exact_subset)
  have g: "?ne + ?e = mset guess" using assms by (rule exact_inexact)
  have "count ?ne c \<le> count (mset target - ?e) c \<longleftrightarrow> count_list guess c \<le> count_list target c" for c
  proof -
    from e have "count ?e c \<le> count (mset target) c" by (rule mset_subset_eq_count)
    moreover from g have "count (mset guess) c = count ?ne c + count ?e c"
      by (metis count_union)
    ultimately show ?thesis by (simp only: count_diff count_mset) arith
  qed
  then show ?thesis
    unfolding twoPass_def singlePass_def m pass2_eq_iff[OF assms sub] by simp
qed

section \<open>Scores, rounds and the grid\<close>

lemma updateScore_frame [simp]:
  "tiles (updateScore s) = tiles s"
  "keys (updateScore s) = keys s"
  "targetWord (updateScore s) = targetWord s"
  "score (updateScore s) = score s"
  by (simp_all add: updateScore_def Let_def)

lemma updateScore_highscore:
  "highscore (updateScore s) =
     (if scoreItem (scoreboard s) \<noteq> None \<and> highscoreItem (scoreboard s) \<noteq> None \<and> score s > highscore s
      then score s else highscore s)"
  by (simp add: updateScore_def Let_def)

lemma updateScore_localStorage:
  "localStorage (updateScore s) =
     (if scoreItem (scoreboard s) \<noteq> None \<and> highscoreItem (scoreboard s) \<noteq> None \<and> score s > highscore s
      then Some (score s) else localStorage s)"
  by (simp add: updateScore_def Let_def)

lemma initialize_frame [simp]:
  "score (initialize d r s) = score s"
  "highscore (initialize d r s) = highscore (updateScore s)"
  "localStorage (initialize d r s) = localStorage (updateScore s)"
  "scoreboard (initialize d r s) = scoreboard (updateScore s)"
  "tiles (initialize d r s) = map resetTile (tiles s)"
  "keys (initialize d r s) = map (\<lambda>k. k\<lparr>classList := []\<rparr>) (keys s)"
  by (simp_all add: initialize_def setRandomTargetWord_def Let_def)

lemma pressKey_frame [simp]:
  "keys (pressKey k s) = keys s"
  "targetWord (pressKey k s) = targetWord s"
  "score (pressKey k s) = score s"
  "highscore (pressKey k s) = highscore s"
  "localStorage (pressKey k s) = localStorage s"
  "scoreboard (pressKey k s) = scoreboard s"
  "length (tiles (pressKey k s)) = length (tiles s)"
  by (simp_all add: pressKey_def split: option.splits)

lemma deleteKey_frame [simp]:
  "keys (deleteKey s) = keys s"
  "targetWord (deleteKey s) = targetWord s"
  "score (deleteKey s) = score s"
  "highscore (deleteKey s) = highscore s"
  "localStorage (deleteKey s) = localStorage s"
  "scoreboard (deleteKey s) = scoreboard s"
  "length (tiles (deleteKey s)) = length (tiles s)"
  by (simp_all add: deleteKey_def split: option.splits)

lemma flipTiles_simps [simp]:
  "targetWord (flipTiles ts s) = targetWord s"
  "score (flipTiles ts s) = score s"
  "highscore (flipTiles ts s) = highscore s"
  "scoreboard (flipTiles ts s) = scoreboard s"
  "localStorage (flipTiles ts s) = localStorage s"
  "map letter (tiles (flipTiles ts s)) = map letter (tiles s)"
  "map dataset_key (keys (flipTiles ts s)) = map dataset_key (keys s)"
  using flipTiles_frame[of "enumerate 0 ts" s] by (simp_all add: flipTiles_def)

lemma isGridFull_flipTiles [simp]: "isGridFull (flipTiles ts s) = isGridFull s"
proof -
  have "list_all (\<lambda>t. letter t \<noteq> None) xs = list_all (\<lambda>l. l \<noteq> None) (map letter xs)" for xs :: "tile list"
    by (simp add: list_all_iff)
  then show ?thesis unfolding isGridFull_def by (metis flipTiles_simps(6))
qed

lemma submitGuess_rejected_eq:
  "length (activeTiles s) \<noteq> wordLength \<or> guessedWord s \<notin> set dictionary \<Longrightarrow>
   submitGuess dictionary rnd s =
     (s, [ShowAlert (if length (activeTiles s) \<noteq> wordLength then NotEnoughLetters else NoSuchWord) 1000,
          PlayAnimation Shake (activeTiles s)])"
  by (auto simp: submitGuess_def)

lemma submitGuess_won:
  assumes "length (activeTiles s) = wordLength" "guessedWord s \<in> set dictionary"
    "guessedWord s = targetWord s"
  shows "submitGuess dictionary rnd s =
    (initialize dictionary rnd ((flipTiles (activeTiles s) s)\<lparr>score := score s + reward\<rparr>),
     [PlayAnimation Flip (activeTiles s), ShowAlert (Win reward) rewardDuration,
      PlayAnimation Dance (activeTiles s)])"
  using assms by (simp add: submitGuess_def checkWinLose_def Let_def)

lemma submitGuess_lost:
  assumes "length (activeTiles s) = wordLength" "guessedWord s \<in> set dictionary"
    "guessedWord s \<noteq> targetWord s" "isGridFull s"
  shows "submitGuess dictionary rnd s =
    (initialize dictionary rnd
       (if score s > 0 then (flipTiles (activeTiles s) s)\<lparr>score := score s - penalty\<rparr>
        else flipTiles (activeTiles s) s),
     [PlayAnimation Flip (activeTiles s), ShowAlert (Lose (targetWord s) penalty) penaltyDuration])"
  using assms by (simp add: submitGuess_def checkWinLose_def Let_def)

lemma submitGuess_in_progress:
  assumes "length (activeTiles s) = wordLength" "guessedWord s \<in> set dictionary"
    "guessedWord s \<noteq> targetWord s" "\<not> isGridFull s"
  shows "submitGuess dictionary rnd s =
    (flipTiles (activeTiles s) s, [PlayAnimation Flip (activeTiles s)])"
  using assms by (simp add: submitGuess_def checkWinLose_def Let_def)

lemma updateScore_highscore_mono: "highscore s \<le> highscore (updateScore s)"
  by (simp add: updateScore_highscore)

lemma perform_score_nonneg:
  "0 \<le> score s \<Longrightarrow> 0 \<le> score (fst (perform dictionary op s))"
proof (cases op)
  case (SubmitGuess rnd)
  assume nn: "0 \<le> score s"
  show ?thesis
  proof (cases "length (activeTiles s) \<noteq> wordLength \<or> guessedWord s \<notin> set dictionary")
    case True
    with nn SubmitGuess show ?thesis by (simp add: perform_def submitGuess_rejected_eq)
  next
    case False
    then have acc: "length (activeTiles s) = wordLength" "guessedWord s \<in> set dictionary" by simp_all
    show ?thesis
    proof (cases "guessedWord s = targetWord s")
      case True
      with nn SubmitGuess submitGuess_won[OF acc True] show ?thesis
        by (simp add: perform_def reward_def)
    next
      case ne: False
      show ?thesis
      proof (cases "isGridFull s")
        case True
        with nn SubmitGuess submitGuess_lost[OF acc ne True] show ?thesis
          by (simp add: perform_def penalty_def)
      next
        case False
        with nn SubmitGuess submitGuess_in_progress[OF acc ne False] show ?thesis
          by (simp add: perform_def)
      qed
    qed
  qed
qed (simp_all add: perform_def)

lemma perform_highscore:
  "(highscore (fst (perform dictionary op s)) = highscore s
      \<and> localStorage (fst (perform dictionary op s)) = localStorage s)
   \<or> (highscore s < highscore (fst (perform dictionary op s))
      \<and> highscore (fst (perform dictionary op s)) = score (fst (perform dictionary op s))
      \<and> localStorage (fst (perform dictionary op s)) = Some (score (fst (perform dictionary op s))))"
proof (cases op)
  case (SubmitGuess rnd)
  show ?thesis
  proof (cases "length (activeTiles s) \<noteq> wordLength \<or> guessedWord s \<notin> set dictionary")
    case True
    with SubmitGuess show ?thesis by (simp add: perform_def submitGuess_rejected_eq)
  next
    case False
    then have acc: "length (activeTiles s) = wordLength" "guessedWord s \<in> set dictionary" by simp_all
    show ?thesis
    proof (cases "guessedWord s = targetWord s")
      case True
      with SubmitGuess submitGuess_won[OF acc True] show ?thesis
        by (simp add: perform_def updateScore_highscore updateScore_localStorage)
    next
      case ne: False
      show ?thesis
      proof (cases "isGridFull s")
        case True
        with SubmitGuess submitGuess_lost[OF acc ne True] show ?thesis
          by (simp add: perform_def updateScore_highscore updateScore_localStorage)
      next
        case False
        with SubmitGuess submitGuess_in_progress[OF acc ne False] show ?thesis
          by (simp add: perform_def)
      qed
    qed
  qed
qed (simp_all add: perform_def)

lemma perform_highscore_mono: "highscore s \<le> highscore (fst (perform dictionary op s))"
  using perform_highscore[of dictionary op s] by auto

lemma run_highscore_mono: "highscore s \<le> highscore (run dictionary ops s)"
proof (induction ops arbitrary: s)
  case Nil
  show ?case by simp
next
  case (Cons op ops)
  have "highscore s \<le> highscore (fst (perform dictionary op s))" by (rule perform_highscore_mono)
  also have "\<dots> \<le> highscore (run dictionary ops (fst (perform dictionary op s)))" by (rule Cons.IH)
  finally show ?case by simp
qed

subsection \<open>The first and the last position that satisfies a predicate\<close>

lemma find_upt_Some:
  assumes "find P [0..<n] = Some t"
  shows "t < n \<and> P t \<and> (\<forall>j<t. \<not> P j)"
proof -
  from assms obtain i where i: "i < n" "P ([0..<n] ! i)" "t = [0..<n] ! i"
    "\<forall>j<i. \<not> P ([0..<n] ! j)"
    by (auto simp: find_Some_iff)
  then have "t = i" by simp
  with i show ?thesis by auto
qed

lemma find_rev_upt_Some:
  assumes "find P (rev [0..<n]) = Some t"
  shows "t < n \<and> P t \<and> (\<forall>j. t < j \<and> j < n \<longrightarrow> \<not> P j)"
proof -
  from assms obtain i where i: "i < n" "P (rev [0..<n] ! i)" "t = rev [0..<n] ! i"
    "\<forall>j<i. \<not> P (rev [0..<n] ! j)"
    by (auto simp: find_Some_iff)
  from i(1) i(3) have t: "t = n - Suc i" by (simp add: rev_nth)
  have "\<not> P j" if "t < j" "j < n" for j
  proof -
    from that t i(1) have lt: "n - Suc j < i" by arith
    from that have "rev [0..<n] ! (n - Suc j) = j" by (simp add: rev_nth)
    with i(4) lt show ?thesis by metis
  qed
  with i t show ?thesis by auto
qed

subsection \<open>Typing and deleting\<close>

lemma pressKey_tiles:
  "tiles (pressKey k s) = tiles s
   \<or> (\<exists>t. t < length (tiles s) \<and> letter (tiles s ! t) = None
        \<and> (\<forall>j<t. letter (tiles s ! j) \<noteq> None)
        \<and> tiles (pressKey k s) = (tiles s)[t := setTile (tiles s ! t) (toLocaleUpperCase k)])"
proof (cases "find (\<lambda>t. letter (tiles s ! t) = None) [0..<length (tiles s)]")
  case None
  then show ?thesis by (simp add: pressKey_def)
next
  case (Some t)
  from find_upt_Some[OF Some] Some show ?thesis by (auto simp: pressKey_def)
qed

lemma deleteKey_tiles:
  "tiles (deleteKey s) = tiles s
   \<or> (\<exists>t. t < length (tiles s) \<and> state (tiles s ! t) = Some ActiveSpot
        \<and> (\<forall>j. t < j \<and> j < length (tiles s) \<longrightarrow> state (tiles s ! j) \<noteq> Some ActiveSpot)
        \<and> tiles (deleteKey s) = (tiles s)[t := resetTile (tiles s ! t)])"
proof (cases "find (\<lambda>t. state (tiles s ! t) = Some ActiveSpot) (rev [0..<length (tiles s)])")
  case None
  then show ?thesis by (simp add: deleteKey_def)
next
  case (Some t)
  from find_rev_upt_Some[OF Some] Some show ?thesis by (auto simp: deleteKey_def)
qed

subsection \<open>The invariant is kept\<close>

lemma list_all_update:
  "list_all P xs \<Longrightarrow> P v \<Longrightarrow> list_all P (xs[t := v])"
  by (auto simp: list_all_iff dest: set_update_subset_insert[THEN subsetD])

lemma wellFormed_pressKey: "wellFormed s \<Longrightarrow> wellFormed (pressKey k s)"
  using pressKey_tiles[of k s]
  by (auto simp: wellFormed_def setTile_def intro!: list_all_update)

lemma wellFormed_deleteKey: "wellFormed s \<Longrightarrow> wellFormed (deleteKey s)"
  using deleteKey_tiles[of s]
  by (auto simp: wellFormed_def resetTile_def intro!: list_all_update)

lemma wellFormed_flipTile: "wellFormed s \<Longrightarrow> wellFormed (flipTile t i s)"
  by (auto simp: wellFormed_def flipTile_def split: option.splits intro!: list_all_update)

lemma wellFormed_flipTiles: "wellFormed s \<Longrightarrow> wellFormed (flipTiles ts s)"
proof -
  have "wellFormed s \<Longrightarrow> wellFormed (fold (\<lambda>(index, t). flipTile t index) xs s)" for xs
    by (induction xs arbitrary: s) (auto simp: wellFormed_flipTile)
  then show "wellFormed s \<Longrightarrow> wellFormed (flipTiles ts s)" by (simp add: flipTiles_def)
qed

lemma wellFormed_initialize: "wellFormed (initialize d r s)"
  by (simp add: wellFormed_def list_all_iff resetTile_def)

lemma wellFormed_constructor: "wellFormed (constructor d r sb grid keyboard stored)"
  by (simp add: constructor_def wellFormed_initialize)

lemma wellFormed_submitGuess: "wellFormed s \<Longrightarrow> wellFormed (fst (submitGuess d r s))"
  by (simp add: submitGuess_def checkWinLose_def Let_def wellFormed_initialize wellFormed_flipTiles)

lemma wellFormed_perform: "wellFormed s \<Longrightarrow> wellFormed (fst (perform d op s))"
  by (cases op) (simp_all add: perform_def wellFormed_pressKey wellFormed_deleteKey wellFormed_submitGuess)

lemma wellFormed_run: "wellFormed s \<Longrightarrow> wellFormed (run d ops s)"
  by (induction ops arbitrary: s) (simp_all add: wellFormed_perform)

lemma score_nonneg_run: "0 \<le> score s \<Longrightarrow> 0 \<le> score (run d ops s)"
  by (induction ops arbitrary: s) (simp_all add: perform_score_nonneg)

lemma score_constructor: "score (constructor d r sb grid keyboard stored) = 0"
  by (simp add: constructor_def)

subsection \<open>The classes of the keys within a round\<close>

lemma classList_add_set [simp]: "set (classList (classList_add c k)) = insert c (set (classList k))"
  by (auto simp: classList_add_def)

lemma classList_add_key [simp]: "dataset_key (classList_add c k) = dataset_key k"
  by (simp add: classList_add_def)

lemma keys_grow_refl:
  "list_all2 (\<lambda>a b. dataset_key b = dataset_key a \<and> set (classList a) \<subseteq> set (classList b)) ks ks"
  by (simp add: list_all2_refl)

lemma keys_grow_trans:
  "list_all2 (\<lambda>a b. dataset_key b = dataset_key a \<and> set (classList a) \<subseteq> set (classList b)) ks ks'
   \<Longrightarrow> list_all2 (\<lambda>a b. dataset_key b = dataset_key a \<and> set (classList a) \<subseteq> set (classList b)) ks' ks''
   \<Longrightarrow> list_all2 (\<lambda>a b. dataset_key b = dataset_key a \<and> set (classList a) \<subseteq> set (classList b)) ks ks''"
  unfolding list_all2_conv_all_nth by (metis (no_types, lifting) subset_trans)

lemma keys_grow_flipTile:
  "list_all2 (\<lambda>a b. dataset_key b = dataset_key a \<and> set (classList a) \<subseteq> set (classList b))
     (keys s) (keys (flipTile t i s))"
proof (cases "letter (tiles s ! t)")
  case None
  then show ?thesis by (simp add: flipTile_def keys_grow_refl)
next
  case (Some l)
  show ?thesis
  proof (cases "findKey (keys s) l")
    case None
    with Some show ?thesis by (simp add: flipTile_def keys_grow_refl)
  next
    case (Some k)
    have "list_all2 (\<lambda>a b. dataset_key b = dataset_key a \<and> set (classList a) \<subseteq> set (classList b))
            ((keys s)[k := keys s ! k])
            ((keys s)[k := classList_add (classify (targetWord s) i l) (keys s ! k)])"
      by (rule list_all2_update_cong[OF keys_grow_refl]) auto
    with Some \<open>letter (tiles s ! t) = Some l\<close> show ?thesis by (simp add: flipTile_def)
  qed
qed

lemma keys_grow_flipTiles:
  "list_all2 (\<lambda>a b. dataset_key b = dataset_key a \<and> set (classList a) \<subseteq> set (classList b))
     (keys s) (keys (flipTiles ts s))"
proof -
  have "list_all2 (\<lambda>a b. dataset_key b = dataset_key a \<and> set (classList a) \<subseteq> set (classList b))
     (keys s) (keys (fold (\<lambda>(index, t). flipTile t index) xs s))" for xs
  proof (induction xs arbitrary: s)
    case Nil
    show ?case by (simp add: keys_grow_refl)
  next
    case (Cons x xs)
    obtain i t where x: "x = (i, t)" by (cases x)
    from keys_grow_trans[OF keys_grow_flipTile[of s t i] Cons.IH[of "flipTile t i s"]] x
    show ?case by simp
  qed
  then show ?thesis by (simp add: flipTiles_def)
qed

lemma submitGuess_cases:
  obtains (rejected) "length (activeTiles s) \<noteq> wordLength \<or> guessedWord s \<notin> set d"
     "submitGuess d r s = (s, [ShowAlert (if length (activeTiles s) \<noteq> wordLength then NotEnoughLetters else NoSuchWord) 1000,
          PlayAnimation Shake (activeTiles s)])"
  | (won) "length (activeTiles s) = wordLength" "guessedWord s \<in> set d" "guessedWord s = targetWord s"
     "submitGuess d r s =
       (initialize d r ((flipTiles (activeTiles s) s)\<lparr>score := score s + reward\<rparr>),
        [PlayAnimation Flip (activeTiles s), ShowAlert (Win reward) rewardDuration,
         PlayAnimation Dance (activeTiles s)])"
  | (lost) "length (activeTiles s) = wordLength" "guessedWord s \<in> set d" "guessedWord s \<noteq> targetWord s"
     "isGridFull s"
     "submitGuess d r s =
       (initialize d r
         (if score s > 0 then (flipTiles (activeTiles s) s)\<lparr>score := score s - penalty\<rparr>
          else flipTiles (activeTiles s) s),
        [PlayAnimation Flip (activeTiles s), ShowAlert (Lose (targetWord s) penalty) penaltyDuration])"
  | (in_progress) "length (activeTiles s) = wordLength" "guessedWord s \<in> set d"
     "guessedWord s \<noteq> targetWord s" "\<not> isGridFull s"
     "submitGuess d r s = (flipTiles (activeTiles s) s, [PlayAnimation Flip (activeTiles s)])"
proof (cases "length (activeTiles s) \<noteq> wordLength \<or> guessedWord s \<notin> set d")
  case True
  from rejected[OF True submitGuess_rejected_eq[OF True]] show ?thesis .
next
  case False
  then have acc: "length (activeTiles s) = wordLength" "guessedWord s \<in> set d" by simp_all
  show ?thesis
  proof (cases "guessedWord s = targetWord s")
    case True
    from won[OF acc True submitGuess_won[OF acc True]] show ?thesis .
  next
    case ne: False
    show ?thesis
    proof (cases "isGridFull s")
      case True
      from lost[OF acc ne True submitGuess_lost[OF acc ne True]] show ?thesis .
    next
      case False
      from in_progress[OF acc ne False submitGuess_in_progress[OF acc ne False]] show ?thesis .
    qed
  qed
qed

lemma perform_keys_grow:
  assumes "\<not> list_ex endsRound (snd (perform d op s))"
  shows "list_all2 (\<lambda>a b. dataset_key b = dataset_key a \<and> set (classList a) \<subseteq> set (classList b))
     (keys s) (keys (fst (perform d op s)))"
proof (cases op)
  case (PressKey k)
  then show ?thesis by (simp add: perform_def keys_grow_refl)
next
  case DeleteKey
  then show ?thesis by (simp add: perform_def keys_grow_refl)
next
  case (SubmitGuess r)
  show ?thesis
  proof (cases rule: submitGuess_cases[of s d r])
    case rejected
    with SubmitGuess show ?thesis by (simp add: perform_def keys_grow_refl)
  next
    case won
    with SubmitGuess assms show ?thesis by (simp add: perform_def)
  next
    case lost
    with SubmitGuess assms show ?thesis by (simp add: perform_def)
  next
    case in_progress
    with SubmitGuess show ?thesis by (simp add: perform_def keys_grow_flipTiles)
  qed
qed

lemma perform_ends_round_keys:
  assumes "list_ex endsRound (snd (perform d op s))"
  shows "list_all (\<lambda>k. classList k = []) (keys (fst (perform d op s)))"
proof (cases op)
  case (PressKey k)
  with assms show ?thesis by (simp add: perform_def)
next
  case DeleteKey
  with assms show ?thesis by (simp add: perform_def)
next
  case (SubmitGuess r)
  show ?thesis
  proof (cases rule: submitGuess_cases[of s d r])
    case rejected
    with SubmitGuess assms show ?thesis by (simp add: perform_def split: if_splits)
  next
    case won
    with SubmitGuess show ?thesis by (simp add: perform_def list_all_iff)
  next
    case lost
    with SubmitGuess show ?thesis by (simp add: perform_def list_all_iff)
  next
    case in_progress
    with SubmitGuess assms show ?thesis by (simp add: perform_def)
  qed
qed

lemma runRound_keys_grow:
  "runRound d ops s = Some s' \<Longrightarrow>
   list_all2 (\<lambda>a b. dataset_key b = dataset_key a \<and> set (classList a) \<subseteq> set (classList b))
     (keys s) (keys s')"
proof (induction ops arbitrary: s)
  case Nil
  then show ?case by (simp add: keys_grow_refl)
next
  case (Cons op ops)
  from Cons.prems have ne: "\<not> list_ex endsRound (snd (perform d op s))"
    and rest: "runRound d ops (fst (perform d op s)) = Some s'"
    by (simp_all split: if_splits)
  from keys_grow_trans[OF perform_keys_grow[OF ne] Cons.IH[OF rest]] show ?case .
qed

lemma runRound_target: "runRound d ops s = Some s' \<Longrightarrow> targetWord s' = targetWord s"
proof (induction ops arbitrary: s)
  case Nil
  then show ?case by simp
next
  case (Cons op ops)
  from Cons.prems have ne: "\<not> list_ex endsRound (snd (perform d op s))"
    and rest: "runRound d ops (fst (perform d op s)) = Some s'"
    by (simp_all split: if_splits)
  have "targetWord (fst (perform d op s)) = targetWord s"
  proof (cases op)
    case (SubmitGuess r)
    show ?thesis
      by (cases rule: submitGuess_cases[of s d r]) (use SubmitGuess ne in \<open>simp_all add: perform_def\<close>)
  qed (simp_all add: perform_def)
  with Cons.IH[OF rest] show ?case by simp
qed


section \<open>The texts of the messages\<close>

lemma toString_digit: "0 \<le> i \<Longrightarrow> i < 10 \<Longrightarrow> toString i = [48 + nat i]"
  by (simp add: toString_def decimal.simps)

lemma render_Win: "render (Win reward) = take 18 template_win @ [50] @ drop 28 template_win"
  by (simp add: reward_def toString_digit template_win_def)

lemma replace_from_skip:
  "123 \<notin> set xs \<Longrightarrow> replace_from 0 (123 # p) rep (xs @ ys) = xs @ replace_from 0 (123 # p) rep ys"
  by (induction xs) auto

lemma render_Lose:
  assumes "123 \<notin> set w"
  shows "render (Lose w penalty)
    = take 23 template_lose @ w @ take 10 (drop 31 template_lose) @ [49] @ drop 52 template_lose"
proof -
  have first: "replace_first [123, 123, 119, 111, 114, 100, 125, 125] w template_lose
      = (take 23 template_lose @ w @ take 10 (drop 31 template_lose)) @ drop 41 template_lose"
    by (simp add: template_lose_def)
  have no: "123 \<notin> set (take 23 template_lose @ w @ take 10 (drop 31 template_lose))"
    using assms by (simp add: template_lose_def)
  have rest: "replace_from 0 [123, 123, 112, 101, 110, 97, 108, 116, 121, 125, 125] [49] (drop 41 template_lose)
      = [49] @ drop 52 template_lose"
    by (simp add: template_lose_def)
  have ts: "toString penalty = [49]" by (simp add: penalty_def toString_digit)
  have "render (Lose w penalty)
      = replace_from 0 [123, 123, 112, 101, 110, 97, 108, 116, 121, 125, 125] [49]
          ((take 23 template_lose @ w @ take 10 (drop 31 template_lose)) @ drop 41 template_lose)"
    by (simp only: render.simps replace_all_def first ts)
  also have "\<dots> = (take 23 template_lose @ w @ take 10 (drop 31 template_lose))
      @ replace_from 0 [123, 123, 112, 101, 110, 97, 108, 116, 121, 125, 125] [49] (drop 41 template_lose)"
    using no by (rule replace_from_skip)
  also have "\<dots> = (take 23 template_lose @ w @ take 10 (drop 31 template_lose))
      @ [49] @ drop 52 template_lose"
    by (simp only: rest)
  finally show ?thesis by simp
qed



section \<open>Keys pressed before the round is evaluated\<close>

lemma submitGuessThen_Nil: "submitGuessThen dictionary rnd [] s = submitGuess dictionary rnd s"
  by (simp add: submitGuessThen_def submitGuess_def)

lemma stroke_frame [simp]:
  "keys (stroke k s) = keys s"
  "targetWord (stroke k s) = targetWord s"
  "score (stroke k s) = score s"
  "highscore (stroke k s) = highscore s"
  "localStorage (stroke k s) = localStorage s"
  "scoreboard (stroke k s) = scoreboard s"
  "length (tiles (stroke k s)) = length (tiles s)"
  by (cases k, simp_all)+

lemma fold_stroke_frame [simp]:
  "keys (fold stroke ks s) = keys s"
  "targetWord (fold stroke ks s) = targetWord s"
  "score (fold stroke ks s) = score s"
  "highscore (fold stroke ks s) = highscore s"
  "localStorage (fold stroke ks s) = localStorage s"
  "scoreboard (fold stroke ks s) = scoreboard s"
  "length (tiles (fold stroke ks s)) = length (tiles s)"
  by (induction ks arbitrary: s, simp_all)+

lemma wellFormed_stroke: "wellFormed s \<Longrightarrow> wellFormed (stroke k s)"
  by (cases k) (simp_all add: wellFormed_pressKey wellFormed_deleteKey)

lemma checkWinLose_in_progress:
  "guess \<noteq> targetWord s \<Longrightarrow> \<not> isGridFull s \<Longrightarrow> checkWinLose dictionary rnd guess ts s = (s, [])"
  by (simp add: checkWinLose_def)

subsection \<open>Counting the tiles without a letter and the active tiles\<close>

lemma length_filter_update:
  "i < length xs \<Longrightarrow>
   length (filter P (xs[i := y])) + (if P (xs ! i) then 1 else 0)
     = length (filter P xs) + (if P y then 1 else 0)"
proof (induction xs arbitrary: i)
  case Nil
  then show ?case by simp
next
  case (Cons x xs)
  show ?case
  proof (cases i)
    case 0
    then show ?thesis by simp
  next
    case (Suc j)
    with Cons.prems have "j < length xs" by simp
    from Cons.IH[OF this] Suc show ?thesis by simp
  qed
qed

lemma length_positions: "length (positions P xs) = length (filter P xs)"
proof -
  have "{i. i < length xs \<and> P (xs ! ([0..<length xs] ! i))} = {i. i < length xs \<and> P (xs ! i)}"
    by auto
  then show ?thesis by (simp add: positions_def length_filter_conv_card)
qed

lemma length_activeTiles:
  "length (activeTiles s) = length (filter (\<lambda>t. state t = Some ActiveSpot) (tiles s))"
  by (simp add: activeTiles_def length_positions)

lemma isGridFull_blank:
  "isGridFull s = (length (filter (\<lambda>t. letter t = None) (tiles s)) = 0)"
  by (auto simp: isGridFull_def list_all_iff filter_empty_conv)

lemma pressKey_count:
  assumes "wellFormed s"
  shows "length (filter (\<lambda>t. letter t = None) (tiles (pressKey k s)))
       + length (filter (\<lambda>t. state t = Some ActiveSpot) (tiles (pressKey k s)))
     = length (filter (\<lambda>t. letter t = None) (tiles s))
       + length (filter (\<lambda>t. state t = Some ActiveSpot) (tiles s))
   \<and> (length (filter (\<lambda>t. state t = Some ActiveSpot) (tiles s)) \<le> wordLength \<longrightarrow>
        length (filter (\<lambda>t. state t = Some ActiveSpot) (tiles (pressKey k s))) \<le> wordLength)"
proof (cases "length (activeTiles s) \<ge> wordLength")
  case True
  then show ?thesis by (simp add: pressKey_def)
next
  case False
  show ?thesis
  proof (cases "find (\<lambda>t. letter (tiles s ! t) = None) [0..<length (tiles s)]")
    case None
    with False show ?thesis by (simp add: pressKey_def)
  next
    case (Some t)
    from find_upt_Some[OF Some] have t: "t < length (tiles s)" and l: "letter (tiles s ! t) = None"
      by simp_all
    from wellFormed_nth[OF assms t] l have st: "state (tiles s ! t) = None" by simp
    have tl: "tiles (pressKey k s) = (tiles s)[t := setTile (tiles s ! t) (toLocaleUpperCase k)]"
      using False Some by (simp add: pressKey_def)
    from length_filter_update[OF t, of "\<lambda>t. letter t = None" "setTile (tiles s ! t) (toLocaleUpperCase k)"] l
    have b: "length (filter (\<lambda>t. letter t = None) (tiles (pressKey k s))) + 1
        = length (filter (\<lambda>t. letter t = None) (tiles s))"
      by (simp add: tl setTile_def)
    from length_filter_update[OF t, of "\<lambda>t. state t = Some ActiveSpot" "setTile (tiles s ! t) (toLocaleUpperCase k)"] st
    have a: "length (filter (\<lambda>t. state t = Some ActiveSpot) (tiles (pressKey k s)))
        = length (filter (\<lambda>t. state t = Some ActiveSpot) (tiles s)) + 1"
      by (simp add: tl setTile_def)
    from False have "length (filter (\<lambda>t. state t = Some ActiveSpot) (tiles s)) < wordLength"
      by (simp add: length_activeTiles)
    with a b show ?thesis by simp
  qed
qed

lemma deleteKey_count:
  assumes "wellFormed s"
  shows "length (filter (\<lambda>t. letter t = None) (tiles (deleteKey s)))
       + length (filter (\<lambda>t. state t = Some ActiveSpot) (tiles (deleteKey s)))
     = length (filter (\<lambda>t. letter t = None) (tiles s))
       + length (filter (\<lambda>t. state t = Some ActiveSpot) (tiles s))
   \<and> (length (filter (\<lambda>t. state t = Some ActiveSpot) (tiles s)) \<le> wordLength \<longrightarrow>
        length (filter (\<lambda>t. state t = Some ActiveSpot) (tiles (deleteKey s))) \<le> wordLength)"
proof (cases "find (\<lambda>t. state (tiles s ! t) = Some ActiveSpot) (rev [0..<length (tiles s)])")
  case None
  then show ?thesis by (simp add: deleteKey_def)
next
  case (Some t)
  from find_rev_upt_Some[OF Some] have t: "t < length (tiles s)"
    and st: "state (tiles s ! t) = Some ActiveSpot"
    by simp_all
  from wellFormed_nth[OF assms t] st have l: "letter (tiles s ! t) \<noteq> None" by simp
  have tl: "tiles (deleteKey s) = (tiles s)[t := resetTile (tiles s ! t)]"
    using Some by (simp add: deleteKey_def)
  from length_filter_update[OF t, of "\<lambda>t. letter t = None" "resetTile (tiles s ! t)"] l
  have b: "length (filter (\<lambda>t. letter t = None) (tiles (deleteKey s)))
      = length (filter (\<lambda>t. letter t = None) (tiles s)) + 1"
    by (simp add: tl resetTile_def)
  from length_filter_update[OF t, of "\<lambda>t. state t = Some ActiveSpot" "resetTile (tiles s ! t)"] st
  have a: "length (filter (\<lambda>t. state t = Some ActiveSpot) (tiles (deleteKey s))) + 1
      = length (filter (\<lambda>t. state t = Some ActiveSpot) (tiles s))"
    by (simp add: tl resetTile_def)
  from a b show ?thesis by simp
qed

lemma fold_stroke_count:
  "wellFormed s \<Longrightarrow> length (filter (\<lambda>t. state t = Some ActiveSpot) (tiles s)) \<le> wordLength \<Longrightarrow>
   wellFormed (fold stroke ks s)
   \<and> length (filter (\<lambda>t. letter t = None) (tiles (fold stroke ks s)))
       + length (filter (\<lambda>t. state t = Some ActiveSpot) (tiles (fold stroke ks s)))
     = length (filter (\<lambda>t. letter t = None) (tiles s))
       + length (filter (\<lambda>t. state t = Some ActiveSpot) (tiles s))
   \<and> length (filter (\<lambda>t. state t = Some ActiveSpot) (tiles (fold stroke ks s))) \<le> wordLength"
proof (induction ks arbitrary: s)
  case Nil
  then show ?case by simp
next
  case (Cons k ks)
  have step: "length (filter (\<lambda>t. letter t = None) (tiles (stroke k s)))
       + length (filter (\<lambda>t. state t = Some ActiveSpot) (tiles (stroke k s)))
     = length (filter (\<lambda>t. letter t = None) (tiles s))
       + length (filter (\<lambda>t. state t = Some ActiveSpot) (tiles s))"
    and le: "length (filter (\<lambda>t. state t = Some ActiveSpot) (tiles (stroke k s))) \<le> wordLength"
    using pressKey_count[OF Cons.prems(1)] deleteKey_count[OF Cons.prems(1)] Cons.prems(2)
    by (cases k; simp)+
  from Cons.IH[OF wellFormed_stroke[OF Cons.prems(1)] le] step show ?case by simp
qed

lemma classify_not_active: "classify target i l \<noteq> ActiveSpot"
  by (simp add: classify_def)

lemma flipTile_active_le:
  "length (filter (\<lambda>t. state t = Some ActiveSpot) (tiles (flipTile t i s)))
     \<le> length (filter (\<lambda>t. state t = Some ActiveSpot) (tiles s))"
proof (cases "t < length (tiles s)")
  case True
  show ?thesis
  proof (cases "letter (tiles s ! t)")
    case None
    then show ?thesis by (simp add: flipTile_def)
  next
    case (Some l)
    show ?thesis
    proof (cases "findKey (keys s) l")
      case None
      with Some show ?thesis by (simp add: flipTile_def)
    next
      case k: (Some k)
      from length_filter_update[OF True, of "\<lambda>t. state t = Some ActiveSpot"
          "(tiles s ! t)\<lparr>state := Some (classify (targetWord s) i l)\<rparr>"]
      show ?thesis using Some k by (simp add: flipTile_def classify_not_active split: if_splits)
    qed
  qed
next
  case False
  then have "tiles (flipTile t i s) = tiles s"
    by (simp add: flipTile_def list_update_beyond split: option.splits)
  then show ?thesis by simp
qed

lemma flipTiles_active_le:
  "length (filter (\<lambda>t. state t = Some ActiveSpot) (tiles (flipTiles ts s)))
     \<le> length (filter (\<lambda>t. state t = Some ActiveSpot) (tiles s))"
proof -
  have "length (filter (\<lambda>t. state t = Some ActiveSpot) (tiles (fold (\<lambda>(index, t). flipTile t index) xs s)))
     \<le> length (filter (\<lambda>t. state t = Some ActiveSpot) (tiles s))" for xs
  proof (induction xs arbitrary: s)
    case Nil
    show ?case by simp
  next
    case (Cons x xs)
    obtain i t where x: "x = (i, t)" by (cases x)
    from Cons.IH[of "flipTile t i s"] flipTile_active_le[of t i s] x show ?case by simp
  qed
  then show ?thesis by (simp add: flipTiles_def)
qed

lemma flipTiles_blank:
  "length (filter (\<lambda>t. letter t = None) (tiles (flipTiles ts s)))
     = length (filter (\<lambda>t. letter t = None) (tiles s))"
proof -
  have "length (filter (\<lambda>t. letter t = None) xs) = length (filter (\<lambda>l. l = None) (map letter xs))"
    for xs :: "tile list"
    by (simp add: filter_map comp_def)
  then show ?thesis by (metis flipTiles_simps(6))
qed

lemma grid_not_full_after_keys:
  assumes "wellFormed s"
    and "length (activeTiles s) \<le> wordLength"
    and "wordLength < length (filter (\<lambda>t. letter t = None) (tiles s))"
  shows "\<not> isGridFull (fold stroke ks (flipTiles (activeTiles s) s))"
proof -
  let ?s1 = "flipTiles (activeTiles s) s"
  have wf: "wellFormed ?s1" using assms(1) by (rule wellFormed_flipTiles)
  have a1: "length (filter (\<lambda>t. state t = Some ActiveSpot) (tiles ?s1)) \<le> wordLength"
    using flipTiles_active_le[of "activeTiles s" s] assms(2) by (simp add: length_activeTiles)
  from fold_stroke_count[OF wf a1, of ks]
  have sum: "length (filter (\<lambda>t. letter t = None) (tiles (fold stroke ks ?s1)))
       + length (filter (\<lambda>t. state t = Some ActiveSpot) (tiles (fold stroke ks ?s1)))
     = length (filter (\<lambda>t. letter t = None) (tiles ?s1))
       + length (filter (\<lambda>t. state t = Some ActiveSpot) (tiles ?s1))"
    and le: "length (filter (\<lambda>t. state t = Some ActiveSpot) (tiles (fold stroke ks ?s1))) \<le> wordLength"
    by blast+
  from sum le flipTiles_blank[of "activeTiles s" s] assms(3)
  have "length (filter (\<lambda>t. letter t = None) (tiles (fold stroke ks ?s1))) \<noteq> 0" by arith
  then show ?thesis unfolding isGridFull_blank by blast
qed

section \<open>The example games, evaluated\<close>

lemma typed_BORKO_words: "guessedWord (typed BORKO) = BORKO \<and> targetWord (typed BORKO) = BORKA"
  by code_simp

lemma typed_BORKO_feedback:
  "feedback (typed BORKO) = [Some CorrectSpot, Some CorrectSpot, Some CorrectSpot, Some CorrectSpot, Some WrongSpot]"
  by code_simp

lemma typed_BORKO_submitted:
  "map state (take 5 (tiles (fst (submitGuess example_dictionary 0 (typed BORKO)))))
     = [Some CorrectSpot, Some CorrectSpot, Some CorrectSpot, Some CorrectSpot, Some WrongSpot]"
  by code_simp

lemma typed_KORAB_words: "guessedWord (typed KORAB) = KORAB \<and> targetWord (typed KORAB) = BORKA"
  by code_simp

lemma typed_wellFormed: "wellFormed (typed BORKO) \<and> wellFormed (typed KORAB)"
  by code_simp

lemma typed_on_keyboard:
  "list_all (\<lambda>l. [l] \<in> dataset_key ` set (keys (typed BORKO))) BORKO
   \<and> list_all (\<lambda>l. [l] \<in> dataset_key ` set (keys (typed KORAB))) KORAB"
  by code_simp

lemma twoPass_BORKO: "twoPass BORKO BORKA = [Correct, Correct, Correct, Correct, Absent]"
  by (simp add: twoPass_def BORKO_def BORKA_def)

lemma twoPass_KORAB: "twoPass KORAB BORKA = [Present, Correct, Correct, Present, Present]"
  by (simp add: twoPass_def KORAB_def BORKA_def)


lemma replicate_numeral: "replicate (numeral k) x = x # replicate (pred_numeral k) x"
  by (simp add: numeral_eq_Suc)

lemmas example_defs = replicate_numeral playing_def committed_def example_keys_def blank_def
  setTile_def KORAB_def BORKA_def BORKO_def config_keys_def example_dictionary_def wordLength_def
  girdLength_def

lemma playing_short:
  "length (activeTiles (playing 0 [1041, 1054] 0)) \<noteq> wordLength"
  by (simp add: activeTiles_def positions_def example_defs)

lemma playing_unknown:
  "length (activeTiles (playing 0 [1040, 1040, 1040, 1040, 1040] 0)) = wordLength
   \<and> guessedWord (playing 0 [1040, 1040, 1040, 1040, 1040] 0) \<notin> set example_dictionary"
  by (simp add: guessedWord_def activeTiles_def positions_def example_defs)

lemma playing_first_row:
  "length (activeTiles (playing 0 BORKA 2)) = wordLength
   \<and> guessedWord (playing 0 BORKA 2) = BORKA \<and> targetWord (playing 0 BORKA 2) = BORKA
   \<and> BORKA \<in> set example_dictionary"
  by (simp add: guessedWord_def activeTiles_def positions_def example_defs)

lemma playing_second_row:
  "length (activeTiles (playing 1 BORKO 2)) = wordLength
   \<and> guessedWord (playing 1 BORKO 2) = BORKO \<and> targetWord (playing 1 BORKO 2) = BORKA
   \<and> BORKO \<in> set example_dictionary \<and> BORKO \<noteq> BORKA \<and> \<not> isGridFull (playing 1 BORKO 2)
   \<and> wellFormed (playing 1 BORKO 2)"
  by (simp add: guessedWord_def activeTiles_def positions_def isGridFull_def wellFormed_def example_defs)

lemma playing_second_row_keys:
  "length (keys (playing 1 BORKO 2)) = 32
   \<and> dataset_key (keys (playing 1 BORKO 2) ! 8) = [1054]
   \<and> classList (keys (playing 1 BORKO 2) ! 8) = [CorrectSpot]"
  by (simp add: example_defs)

lemma playing_second_row_flipped:
  "classList (keys (flipTiles (activeTiles (playing 1 BORKO 2)) (playing 1 BORKO 2)) ! 8)
     = [CorrectSpot, WrongSpot]"
  by (simp add: flipTiles_def flipTile_def findKey_def classify_def charAt_def classList_add_def
      activeTiles_def positions_def example_defs)

lemma playing_last_row:
  "length (activeTiles (playing 5 KORAB 2)) = wordLength
   \<and> guessedWord (playing 5 KORAB 2) = KORAB \<and> targetWord (playing 5 KORAB 2) = BORKA
   \<and> KORAB \<in> set example_dictionary \<and> KORAB \<noteq> BORKA \<and> isGridFull (playing 5 KORAB 2)
   \<and> score (playing 5 KORAB 2) = 2"
  by (simp add: guessedWord_def activeTiles_def positions_def isGridFull_def example_defs)

lemma playing_second_row_tile:
  "wellFormed (playing 1 [1041] 0) \<and> 3 < length (tiles (playing 1 [1041] 0))
   \<and> classified (tiles (playing 1 [1041] 0) ! 3)"
  by (simp add: wellFormed_def classified_def example_defs)


lemma playing_second_row_blank:
  "wordLength < length (filter (\<lambda>t. letter t = None) (tiles (playing 1 BORKO 2)))"
  by (simp add: example_defs)

lemma playing_fifth_row:
  "length (activeTiles (playing 4 KORAB 2)) = wordLength
   \<and> guessedWord (playing 4 KORAB 2) = KORAB \<and> targetWord (playing 4 KORAB 2) = BORKA
   \<and> KORAB \<in> set example_dictionary \<and> KORAB \<noteq> BORKA \<and> \<not> isGridFull (playing 4 KORAB 2)
   \<and> score (playing 4 KORAB 2) = 2"
  by (simp add: guessedWord_def activeTiles_def positions_def isGridFull_def example_defs)

lemma playing_fifth_row_filled:
  "isGridFull (fold stroke (map Press KORAB) (flipTiles (activeTiles (playing 4 KORAB 2)) (playing 4 KORAB 2)))"
  by (simp add: isGridFull_def pressKey_def toLocaleUpperCase_def
      flipTiles_def flipTile_def findKey_def classify_def charAt_def classList_add_def
      activeTiles_def positions_def example_defs)

text \<open>
  On the fifth row the keys can fill the grid: KORAB is submitted against BORKA with the
  sixth row empty, and five keys are pressed before \<^verbatim>\<open>#checkWinLose\<close> runs. It finds
  every tile with a letter and ends the round as lost.
\<close>

lemma keys_fill_fifth_row:
  "score (fst (submitGuessThen example_dictionary 0 (map Press KORAB) (playing 4 KORAB 2))) = 1
   \<and> snd (submitGuessThen example_dictionary 0 (map Press KORAB) (playing 4 KORAB 2))
       = [PlayAnimation Flip (activeTiles (playing 4 KORAB 2)), ShowAlert (Lose BORKA 1) 2000]"
  using playing_fifth_row playing_fifth_row_filled
  by (simp add: submitGuessThen_def checkWinLose_def Let_def penalty_def penaltyDuration_def)

section \<open>The claims about the feedback\<close>

text \<open>
  C1, as the specification states it: the feedback of a submitted guess is the result of
  the two passes. It fails on the target BORKA and the guess BORKO: the second O of the
  guess is marked \<open>Present\<close> by the code, and \<open>Absent\<close> by the two passes, which have
  consumed the only O of the target at the second position.
\<close>

theorem feedback_two_pass_counterexample:
  "guessedWord (typed BORKO) = BORKO \<and> targetWord (typed BORKO) = BORKA
   \<and> length BORKO = wordLength \<and> length BORKA = wordLength \<and> BORKO \<in> set example_dictionary
   \<and> map letterStatus (feedback (typed BORKO)) \<noteq> map Some (twoPass BORKO BORKA)"
  using typed_BORKO_words
  by (simp add: typed_BORKO_feedback twoPass_BORKO) (simp add: BORKO_def BORKA_def wordLength_def example_dictionary_def)

text \<open>
  C1, amended: for a guess and a target of equal length, the feedback marks a position
  \<open>Correct\<close> when the two letters there are equal, \<open>Present\<close> when they differ and the
  letter of the guess occurs anywhere in the target, and \<open>Absent\<close> otherwise. It is the
  result of the two passes exactly when no letter of the target occurs more often in the
  guess than in the target; in general the two differ at most where the code says
  \<open>Present\<close> and the two passes say \<open>Absent\<close>.
  The game is well formed, and each letter of the guess has its key on the keyboard.
\<close>

theorem feedback_is_single_pass:
  assumes "wellFormed s"
    and "length (guessedWord s) = length (targetWord s)"
    and "\<forall>l\<in>set (guessedWord s). [l] \<in> dataset_key ` set (keys s)"
  shows "map letterStatus (feedback s) = map Some (singlePass (guessedWord s) (targetWord s))
    \<and> ((map letterStatus (feedback s) = map Some (twoPass (guessedWord s) (targetWord s)))
        = (\<forall>c\<in>set (targetWord s). count_list (guessedWord s) c \<le> count_list (targetWord s) c))
    \<and> list_all2 (\<lambda>a b. a = b \<or> (a = Absent \<and> b = Present))
         (twoPass (guessedWord s) (targetWord s)) (singlePass (guessedWord s) (targetWord s))"
proof -
  have one: "map letterStatus (feedback s) = map Some (singlePass (guessedWord s) (targetWord s))"
    using assms by (rule feedback_singlePass)
  have sub: "set_mset (pass1 (guessedWord s) (targetWord s) (mset (targetWord s))) \<subseteq> set (targetWord s)"
    using pass1_subset[of "guessedWord s" "targetWord s" "mset (targetWord s)"]
    by (metis mset_subset_eqD set_mset_mset subsetI)
  have rel: "list_all2 (\<lambda>a b. a = b \<or> (a = Absent \<and> b = Present))
         (twoPass (guessedWord s) (targetWord s)) (singlePass (guessedWord s) (targetWord s))"
    unfolding twoPass_def singlePass_def using assms(2) sub by (rule pass2_rel)
  have "(map letterStatus (feedback s) = map Some (twoPass (guessedWord s) (targetWord s)))
      = (twoPass (guessedWord s) (targetWord s) = singlePass (guessedWord s) (targetWord s))"
    unfolding one by (auto simp: inj_map_eq_map)
  with one rel twoPass_eq_iff[OF assms(2)] show ?thesis by simp
qed

theorem feedback_is_single_pass_witness:
  "list_all (\<lambda>c. count_list (guessedWord (typed KORAB)) c \<le> count_list (targetWord (typed KORAB)) c)
     (targetWord (typed KORAB))
   \<and> map letterStatus (feedback (typed KORAB)) = map Some (twoPass KORAB BORKA)
   \<and> twoPass KORAB BORKA = [Present, Correct, Correct, Present, Present]"
proof -
  have w: "guessedWord (typed KORAB) = KORAB" "targetWord (typed KORAB) = BORKA"
    using typed_KORAB_words by simp_all
  have h1: "wellFormed (typed KORAB)" using typed_wellFormed by simp
  have h2: "length (guessedWord (typed KORAB)) = length (targetWord (typed KORAB))"
    by (simp add: w) (simp add: KORAB_def BORKA_def)
  have h3: "\<forall>l\<in>set (guessedWord (typed KORAB)). [l] \<in> dataset_key ` set (keys (typed KORAB))"
    using typed_on_keyboard by (simp add: w list_all_iff)
  have d: "list_all (\<lambda>c. count_list (guessedWord (typed KORAB)) c \<le> count_list (targetWord (typed KORAB)) c)
     (targetWord (typed KORAB))"
    by (simp add: w) (simp add: KORAB_def BORKA_def)
  then have "\<forall>c\<in>set (targetWord (typed KORAB)).
      count_list (guessedWord (typed KORAB)) c \<le> count_list (targetWord (typed KORAB)) c"
    by (simp add: list_all_iff)
  with feedback_is_single_pass[OF h1 h2 h3]
  have "map letterStatus (feedback (typed KORAB))
      = map Some (twoPass (guessedWord (typed KORAB)) (targetWord (typed KORAB)))"
    by blast
  then have "map letterStatus (feedback (typed KORAB)) = map Some (twoPass KORAB BORKA)"
    by (simp add: w)
  with d twoPass_KORAB show ?thesis by blast
qed

text \<open>
  C2, as the specification states it: for every letter, the positions of the guess that
  hold it and are marked \<open>Correct\<close> or \<open>Present\<close> are no more than its occurrences in the
  target. With the target BORKA and the guess BORKO both positions of O (code unit 1054)
  are marked, and the target has one O.
\<close>

theorem marked_count_counterexample:
  "guessedWord (typed BORKO) = BORKO \<and> targetWord (typed BORKO) = BORKA
   \<and> marked 1054 BORKO (feedback (typed BORKO)) = 2 \<and> count_list BORKA 1054 = 1
   \<and> \<not> marked 1054 BORKO (feedback (typed BORKO)) \<le> count_list BORKA 1054"
  using typed_BORKO_words
  by (simp add: typed_BORKO_feedback) (simp add: marked_def BORKO_def BORKA_def)

text \<open>
  C2, amended: for a guess and a target of equal length, every position of the guess gets
  exactly one status, and for every letter \<open>c\<close> the positions that hold \<open>c\<close> and are marked
  \<open>Correct\<close> or \<open>Present\<close> are all the occurrences of \<open>c\<close> in the guess when \<open>c\<close> occurs in
  the target, and none otherwise. Their number does not exceed the occurrences of \<open>c\<close> in
  the target when \<open>c\<close> occurs in the guess no more often than in the target.
\<close>

theorem feedback_marked_count:
  assumes "wellFormed s"
    and "length (guessedWord s) = length (targetWord s)"
    and "\<forall>l\<in>set (guessedWord s). [l] \<in> dataset_key ` set (keys s)"
  shows "length (feedback s) = length (guessedWord s)
    \<and> list_all (\<lambda>st. letterStatus st \<noteq> None) (feedback s)
    \<and> marked c (guessedWord s) (feedback s)
        = (if c \<in> set (targetWord s) then count_list (guessedWord s) c else 0)
    \<and> (count_list (guessedWord s) c \<le> count_list (targetWord s) c \<longrightarrow>
         marked c (guessedWord s) (feedback s) \<le> count_list (targetWord s) c)"
proof -
  let ?g = "guessedWord s" and ?t = "targetWord s"
  have fb: "feedback s = map (\<lambda>(j, l). Some (classify ?t j l)) (enumerate 0 ?g)"
    using assms(1,3) by (rule feedback_classify)
  have len: "length (feedback s) = length ?g" by (simp add: fb)
  have all: "list_all (\<lambda>st. letterStatus st \<noteq> None) (feedback s)"
    by (auto simp: fb list_all_iff classify_def)
  have nth: "\<And>j. j < length ?g \<Longrightarrow>
      feedback s ! j = Some (if ?g ! j = ?t ! j then CorrectSpot
                             else if ?g ! j \<in> set ?t then WrongSpot else MissingSpot)"
    using assms(2) by (simp add: fb nth_enumerate_eq classify_def charAt_def)
  have fbz: "feedback s = map (\<lambda>(g, t). Some (if g = t then CorrectSpot
                             else if g \<in> set ?t then WrongSpot else MissingSpot)) (zip ?g ?t)"
    using assms(2) len nth by (intro nth_equalityI) simp_all
  have "zip ?g (feedback s) = map (\<lambda>(g, t). (g, Some (if g = t then CorrectSpot
                             else if g \<in> set ?t then WrongSpot else MissingSpot))) (zip ?g ?t)"
    using assms(2) by (subst fbz, intro nth_equalityI) simp_all
  then have "marked c ?g (feedback s)
      = length (filter ((\<lambda>(l, st). l = c \<and> (st = Some CorrectSpot \<or> st = Some WrongSpot))
          \<circ> (\<lambda>(g, t). (g, Some (if g = t then CorrectSpot
                             else if g \<in> set ?t then WrongSpot else MissingSpot)))) (zip ?g ?t))"
    by (simp only: marked_def filter_map length_map)
  also have "filter ((\<lambda>(l, st). l = c \<and> (st = Some CorrectSpot \<or> st = Some WrongSpot))
          \<circ> (\<lambda>(g, t). (g, Some (if g = t then CorrectSpot
                             else if g \<in> set ?t then WrongSpot else MissingSpot)))) (zip ?g ?t)
      = filter (\<lambda>(g, t). c \<in> set ?t \<and> g = c) (zip ?g ?t)"
    by (rule filter_cong[OF refl]) (auto dest: set_zip_rightD split: if_splits)
  also have "length \<dots> = (if c \<in> set ?t then count_list ?g c else 0)"
    using count_zip_fst[OF assms(2), of c] by (simp add: case_prod_beta)
  finally have m: "marked c ?g (feedback s) = (if c \<in> set ?t then count_list ?g c else 0)" .
  from len all m show ?thesis by simp
qed

theorem feedback_marked_count_witness:
  "marked 1050 (guessedWord (typed KORAB)) (feedback (typed KORAB)) = 1
   \<and> count_list (guessedWord (typed KORAB)) 1050 \<le> count_list (targetWord (typed KORAB)) 1050
   \<and> marked 1050 (guessedWord (typed KORAB)) (feedback (typed KORAB))
       \<le> count_list (targetWord (typed KORAB)) 1050"
proof -
  have w: "guessedWord (typed KORAB) = KORAB" "targetWord (typed KORAB) = BORKA"
    using typed_KORAB_words by simp_all
  have h1: "wellFormed (typed KORAB)" using typed_wellFormed by simp
  have h2: "length (guessedWord (typed KORAB)) = length (targetWord (typed KORAB))"
    by (simp add: w) (simp add: KORAB_def BORKA_def)
  have h3: "\<forall>l\<in>set (guessedWord (typed KORAB)). [l] \<in> dataset_key ` set (keys (typed KORAB))"
    using typed_on_keyboard by (simp add: w list_all_iff)
  have c: "count_list KORAB 1050 = 1" "count_list BORKA 1050 = 1" "1050 \<in> set BORKA"
    by (simp_all add: KORAB_def BORKA_def)
  from feedback_marked_count[OF h1 h2 h3, of 1050] show ?thesis
    by (simp add: w c)
qed

text \<open>
  C8, as the specification states it: with the target BORKA and the accepted guess BORKO the
  feedback is four times \<open>Correct\<close>, then \<open>Absent\<close>. The code marks the last letter
  \<open>Present\<close>.
\<close>

theorem borka_borko_counterexample:
  "targetWord (typed BORKO) = BORKA \<and> guessedWord (typed BORKO) = BORKO
   \<and> wordLength = 5 \<and> BORKO \<in> set example_dictionary
   \<and> map letterStatus (feedback (typed BORKO))
       \<noteq> [Some Correct, Some Correct, Some Correct, Some Correct, Some Absent]"
  using typed_BORKO_words
  by (simp add: typed_BORKO_feedback) (simp add: wordLength_def example_dictionary_def)

text \<open>
  C8, amended: with the target BORKA and the accepted guess BORKO the feedback is four times
  \<open>Correct\<close>, then \<open>Present\<close>, and these are the states of the five tiles when
  \<^verbatim>\<open>submitGuess\<close> has run.
\<close>

theorem borka_borko_feedback:
  "targetWord (typed BORKO) = BORKA \<and> guessedWord (typed BORKO) = BORKO
   \<and> wordLength = 5 \<and> BORKO \<in> set example_dictionary
   \<and> map letterStatus (feedback (typed BORKO))
       = [Some Correct, Some Correct, Some Correct, Some Correct, Some Present]
   \<and> map letterStatus (map state (take 5 (tiles (fst (submitGuess example_dictionary 0 (typed BORKO))))))
       = [Some Correct, Some Correct, Some Correct, Some Correct, Some Present]"
  using typed_BORKO_words
  by (simp add: typed_BORKO_feedback typed_BORKO_submitted) (simp add: wordLength_def example_dictionary_def)


section \<open>The claims about rejected guesses, scores and rounds\<close>

text \<open>
  C4: a submission whose buffer does not hold \<open>wordLength\<close> letters, or holds a word that
  is not in the dictionary, fails: the length is checked first, the call emits the advisory
  message and the shake of the active tiles and nothing else, and the game it returns is
  the game it was given, so no attempt is used and tiles, keys, target and scores are as
  they were.
\<close>

theorem submitGuess_rejected:
  assumes "length (activeTiles s) \<noteq> wordLength \<or> guessedWord s \<notin> set dictionary"
  shows "submitGuess dictionary rnd s =
      (s, [ShowAlert (if length (activeTiles s) \<noteq> wordLength then NotEnoughLetters else NoSuchWord) 1000,
           PlayAnimation Shake (activeTiles s)])
    \<and> attemptsUsed (fst (submitGuess dictionary rnd s)) = attemptsUsed s
    \<and> activeTiles (fst (submitGuess dictionary rnd s)) = activeTiles s"
  using submitGuess_rejected_eq[OF assms, of rnd] by simp

theorem submitGuess_rejected_witness:
  "submitGuess example_dictionary 0 (playing 0 [1041, 1054] 0)
     = (playing 0 [1041, 1054] 0,
        [ShowAlert NotEnoughLetters 1000, PlayAnimation Shake (activeTiles (playing 0 [1041, 1054] 0))])
   \<and> submitGuess example_dictionary 0 (playing 0 [1040, 1040, 1040, 1040, 1040] 0)
     = (playing 0 [1040, 1040, 1040, 1040, 1040] 0,
        [ShowAlert NoSuchWord 1000,
         PlayAnimation Shake (activeTiles (playing 0 [1040, 1040, 1040, 1040, 1040] 0))])"
proof -
  have short: "length (activeTiles (playing 0 [1041, 1054] 0)) \<noteq> wordLength
      \<or> guessedWord (playing 0 [1041, 1054] 0) \<notin> set example_dictionary"
    using playing_short by simp
  have unknown: "length (activeTiles (playing 0 [1040, 1040, 1040, 1040, 1040] 0)) \<noteq> wordLength
      \<or> guessedWord (playing 0 [1040, 1040, 1040, 1040, 1040] 0) \<notin> set example_dictionary"
    using playing_unknown by simp
  from submitGuess_rejected[OF short, of 0] submitGuess_rejected[OF unknown, of 0]
    playing_short playing_unknown
  show ?thesis by simp
qed

text \<open>
  C5: when an accepted guess differs from the target and the grid is full, the round is
  lost: the score becomes \<open>max 0 (score - penalty)\<close> for the configured penalty, which is
  1, so it is never negative, and the lose message is shown, whose text holds the target
  and the penalty in the places of the two placeholders. The score is not negative
  before: it starts at 0 and no operation makes it negative (\<open>perform_score_nonneg\<close>).
\<close>

theorem lost_round_score:
  assumes "length (activeTiles s) = wordLength"
    and "guessedWord s \<in> set dictionary"
    and "guessedWord s \<noteq> targetWord s"
    and "isGridFull s"
    and "0 \<le> score s"
  shows "score (fst (submitGuess dictionary rnd s)) = max 0 (score s - penalty)
    \<and> 0 \<le> score (fst (submitGuess dictionary rnd s))
    \<and> penalty = 1
    \<and> snd (submitGuess dictionary rnd s) =
        [PlayAnimation Flip (activeTiles s), ShowAlert (Lose (targetWord s) penalty) penaltyDuration]
    \<and> (36 \<notin> set (targetWord s) \<and> 123 \<notin> set (targetWord s) \<longrightarrow>
         render (Lose (targetWord s) penalty) =
           take 23 template_lose @ targetWord s @ take 10 (drop 31 template_lose)
             @ toString penalty @ drop 52 template_lose)"
  using assms(5) submitGuess_lost[OF assms(1-4), of rnd] render_Lose[of "targetWord s"]
  by (simp add: penalty_def toString_digit)

theorem lost_round_score_witness:
  "score (playing 5 KORAB 2) = 2
   \<and> score (fst (submitGuess example_dictionary 0 (playing 5 KORAB 2))) = 1
   \<and> snd (submitGuess example_dictionary 0 (playing 5 KORAB 2)) =
        [PlayAnimation Flip (activeTiles (playing 5 KORAB 2)), ShowAlert (Lose BORKA 1) 2000]
   \<and> render (Lose BORKA 1) =
        take 23 template_lose @ BORKA @ take 10 (drop 31 template_lose) @ [49] @ drop 52 template_lose"
proof -
  have h6: "36 \<notin> set BORKA \<and> 123 \<notin> set BORKA" by (simp add: BORKA_def)
  have h1: "length (activeTiles (playing 5 KORAB 2)) = wordLength"
    and h2: "guessedWord (playing 5 KORAB 2) \<in> set example_dictionary"
    and h3: "guessedWord (playing 5 KORAB 2) \<noteq> targetWord (playing 5 KORAB 2)"
    and h4: "isGridFull (playing 5 KORAB 2)"
    and h5: "0 \<le> score (playing 5 KORAB 2)"
    using playing_last_row by simp_all
  from lost_round_score[OF h1 h2 h3 h4 h5, of 0] playing_last_row h6 show ?thesis
    by (simp add: penalty_def penaltyDuration_def toString_digit)
qed

text \<open>
  C6: when an accepted guess is the target, the round is won: the score grows by the
  configured reward, which is 2, the win message is shown once, its text holding the
  reward in the place of the placeholder, and, the scoreboard having its two spans, the
  high score becomes the new score and is stored when the new score is above it.
\<close>

theorem won_round_score:
  assumes "length (activeTiles s) = wordLength"
    and "guessedWord s \<in> set dictionary"
    and "guessedWord s = targetWord s"
    and "scoreItem (scoreboard s) \<noteq> None"
    and "highscoreItem (scoreboard s) \<noteq> None"
  shows "score (fst (submitGuess dictionary rnd s)) = score s + reward
    \<and> reward = 2
    \<and> snd (submitGuess dictionary rnd s) =
        [PlayAnimation Flip (activeTiles s), ShowAlert (Win reward) rewardDuration,
         PlayAnimation Dance (activeTiles s)]
    \<and> length (filter endsRound (snd (submitGuess dictionary rnd s))) = 1
    \<and> render (Win reward) = take 18 template_win @ toString reward @ drop 28 template_win
    \<and> highscore (fst (submitGuess dictionary rnd s)) =
        (if score s + reward > highscore s then score s + reward else highscore s)
    \<and> localStorage (fst (submitGuess dictionary rnd s)) =
        (if score s + reward > highscore s then Some (score s + reward) else localStorage s)"
  using assms(4,5) submitGuess_won[OF assms(1-3), of rnd] render_Win
  by (simp add: reward_def updateScore_highscore updateScore_localStorage toString_digit)

theorem won_round_score_witness:
  "score (playing 0 BORKA 2) = 2 \<and> highscore (playing 0 BORKA 2) = 2
   \<and> score (fst (submitGuess example_dictionary 0 (playing 0 BORKA 2))) = 4
   \<and> highscore (fst (submitGuess example_dictionary 0 (playing 0 BORKA 2))) = 4
   \<and> localStorage (fst (submitGuess example_dictionary 0 (playing 0 BORKA 2))) = Some 4
   \<and> snd (submitGuess example_dictionary 0 (playing 0 BORKA 2)) =
        [PlayAnimation Flip (activeTiles (playing 0 BORKA 2)), ShowAlert (Win 2) 2000,
         PlayAnimation Dance (activeTiles (playing 0 BORKA 2))]"
proof -
  have h1: "length (activeTiles (playing 0 BORKA 2)) = wordLength"
    and h2: "guessedWord (playing 0 BORKA 2) \<in> set example_dictionary"
    and h3: "guessedWord (playing 0 BORKA 2) = targetWord (playing 0 BORKA 2)"
    using playing_first_row by simp_all
  have h4: "scoreItem (scoreboard (playing 0 BORKA 2)) \<noteq> None"
    and h5: "highscoreItem (scoreboard (playing 0 BORKA 2)) \<noteq> None"
    by (simp_all add: playing_def)
  have sc: "score (playing 0 BORKA 2) = 2" "highscore (playing 0 BORKA 2) = 2"
    by (simp_all add: playing_def)
  from won_round_score[OF h1 h2 h3 h4 h5, of 0] sc show ?thesis
    by (simp add: reward_def rewardDuration_def)
qed

text \<open>
  C10: when an accepted guess differs from the target and the grid is not full when
  \<^verbatim>\<open>#checkWinLose\<close> reads it, the round goes on: \<^verbatim>\<open>#checkWinLose\<close> returns the game as it
  found it and shows nothing, so the score, the high score and the stored high score are
  those before the submission, and the flip animation is all that is emitted, neither the
  win nor the lose message. The game that \<^verbatim>\<open>#checkWinLose\<close> reads is the flipped game
  after the keys \<open>ks\<close> pressed and deleted since the flips; with no such key the submission
  is \<open>submitGuess\<close>. The grid is not full then whenever more than \<open>wordLength\<close> tiles had no
  letter at the submission (\<open>grid_not_full_after_keys\<close>); on the fifth row, five keys can
  fill it (\<open>keys_fill_fifth_row\<close>).
\<close>

theorem in_progress_scores_unchanged:
  assumes "length (activeTiles s) = wordLength"
    and "guessedWord s \<in> set dictionary"
    and "guessedWord s \<noteq> targetWord s"
    and "\<not> isGridFull (fold stroke ks (flipTiles (activeTiles s) s))"
  shows "checkWinLose dictionary rnd (guessedWord s) (activeTiles s)
        (fold stroke ks (flipTiles (activeTiles s) s))
      = (fold stroke ks (flipTiles (activeTiles s) s), [])
    \<and> fst (submitGuessThen dictionary rnd ks s) = fold stroke ks (flipTiles (activeTiles s) s)
    \<and> score (fst (submitGuessThen dictionary rnd ks s)) = score s
    \<and> highscore (fst (submitGuessThen dictionary rnd ks s)) = highscore s
    \<and> localStorage (fst (submitGuessThen dictionary rnd ks s)) = localStorage s
    \<and> targetWord (fst (submitGuessThen dictionary rnd ks s)) = targetWord s
    \<and> snd (submitGuessThen dictionary rnd ks s) = [PlayAnimation Flip (activeTiles s)]
    \<and> list_all (\<lambda>e. \<not> endsRound e) (snd (submitGuessThen dictionary rnd ks s))
    \<and> submitGuessThen dictionary rnd [] s = submitGuess dictionary rnd s"
proof -
  have ne: "guessedWord s \<noteq> targetWord (fold stroke ks (flipTiles (activeTiles s) s))"
    using assms(3) by simp
  have c: "checkWinLose dictionary rnd (guessedWord s) (activeTiles s)
        (fold stroke ks (flipTiles (activeTiles s) s))
      = (fold stroke ks (flipTiles (activeTiles s) s), [])"
    using ne assms(4) by (rule checkWinLose_in_progress)
  have "submitGuessThen dictionary rnd ks s
      = (fold stroke ks (flipTiles (activeTiles s) s), [PlayAnimation Flip (activeTiles s)])"
    using assms(1,2) by (simp add: submitGuessThen_def c)
  with c show ?thesis by (simp add: submitGuessThen_Nil)
qed

theorem in_progress_scores_unchanged_witness:
  "score (playing 1 BORKO 2) = 2
   \<and> score (fst (submitGuessThen example_dictionary 0 (map Press KORAB) (playing 1 BORKO 2))) = 2
   \<and> highscore (fst (submitGuessThen example_dictionary 0 (map Press KORAB) (playing 1 BORKO 2))) = 2
   \<and> snd (submitGuessThen example_dictionary 0 (map Press KORAB) (playing 1 BORKO 2))
       = [PlayAnimation Flip (activeTiles (playing 1 BORKO 2))]
   \<and> score (fst (submitGuess example_dictionary 0 (playing 1 BORKO 2))) = 2
   \<and> snd (submitGuess example_dictionary 0 (playing 1 BORKO 2))
       = [PlayAnimation Flip (activeTiles (playing 1 BORKO 2))]"
proof -
  have h1: "length (activeTiles (playing 1 BORKO 2)) = wordLength"
    and h2: "guessedWord (playing 1 BORKO 2) \<in> set example_dictionary"
    and h3: "guessedWord (playing 1 BORKO 2) \<noteq> targetWord (playing 1 BORKO 2)"
    and wf: "wellFormed (playing 1 BORKO 2)"
    using playing_second_row by simp_all
  from h1 have le: "length (activeTiles (playing 1 BORKO 2)) \<le> wordLength" by simp
  have h4: "\<not> isGridFull (fold stroke ks
      (flipTiles (activeTiles (playing 1 BORKO 2)) (playing 1 BORKO 2)))" for ks
    using wf le playing_second_row_blank by (rule grid_not_full_after_keys)
  have sc: "score (playing 1 BORKO 2) = 2" "highscore (playing 1 BORKO 2) = 2"
    by (simp_all add: playing_def)
  from in_progress_scores_unchanged[where ks = "map Press KORAB" and rnd = 0, OF h1 h2 h3 h4]
    in_progress_scores_unchanged[where ks = "[]" and rnd = 0, OF h1 h2 h3 h4] sc
  show ?thesis by simp
qed

section \<open>The claims about keys, the high score and committed rows\<close>

text \<open>
  C3: within a round, a key that carries the class \<^verbatim>\<open>correct-spot\<close> keeps it through every
  later operation, whatever classes later guesses add, so the status it shows (the best of
  its classes, \<open>displayedStatus\<close>) stays \<open>Correct\<close> and never becomes \<open>Present\<close> or
  \<open>Absent\<close>; the target is the same throughout. The class lists are emptied by the
  operation that ends the round.
\<close>

theorem correct_key_stays_correct:
  assumes "runRound dictionary ops s = Some s'"
    and "k < length (keys s)"
    and "CorrectSpot \<in> set (classList (keys s ! k))"
  shows "k < length (keys s')
    \<and> dataset_key (keys s' ! k) = dataset_key (keys s ! k)
    \<and> CorrectSpot \<in> set (classList (keys s' ! k))
    \<and> displayedStatus (keys s' ! k) = Some Correct
    \<and> displayedStatus (keys s' ! k) \<noteq> Some Present
    \<and> displayedStatus (keys s' ! k) \<noteq> Some Absent
    \<and> targetWord s' = targetWord s
    \<and> (list_ex endsRound (snd (perform dictionary op s')) \<longrightarrow>
         list_all (\<lambda>k. classList k = []) (keys (fst (perform dictionary op s'))))"
proof -
  from runRound_keys_grow[OF assms(1)] assms(2)
  have len: "k < length (keys s')"
    and key: "dataset_key (keys s' ! k) = dataset_key (keys s ! k)"
    and sub: "set (classList (keys s ! k)) \<subseteq> set (classList (keys s' ! k))"
    by (simp_all add: list_all2_conv_all_nth)
  from sub assms(3) have c: "CorrectSpot \<in> set (classList (keys s' ! k))" by auto
  then have d: "displayedStatus (keys s' ! k) = Some Correct" by (simp add: displayedStatus_def)
  from len key c d runRound_target[OF assms(1)] perform_ends_round_keys[of dictionary op s']
  show ?thesis by simp
qed

theorem correct_key_stays_correct_witness:
  "runRound example_dictionary [SubmitGuess 0] (playing 1 BORKO 2)
     = Some (flipTiles (activeTiles (playing 1 BORKO 2)) (playing 1 BORKO 2))
   \<and> dataset_key (keys (playing 1 BORKO 2) ! 8) = [1054]
   \<and> classList (keys (playing 1 BORKO 2) ! 8) = [CorrectSpot]
   \<and> classList (keys (flipTiles (activeTiles (playing 1 BORKO 2)) (playing 1 BORKO 2)) ! 8)
       = [CorrectSpot, WrongSpot]
   \<and> displayedStatus (keys (flipTiles (activeTiles (playing 1 BORKO 2)) (playing 1 BORKO 2)) ! 8)
       = Some Correct"
proof -
  have h1: "length (activeTiles (playing 1 BORKO 2)) = wordLength"
    and h2: "guessedWord (playing 1 BORKO 2) \<in> set example_dictionary"
    and h3: "guessedWord (playing 1 BORKO 2) \<noteq> targetWord (playing 1 BORKO 2)"
    and h4: "\<not> isGridFull (playing 1 BORKO 2)"
    using playing_second_row by simp_all
  have r: "runRound example_dictionary [SubmitGuess 0] (playing 1 BORKO 2)
     = Some (flipTiles (activeTiles (playing 1 BORKO 2)) (playing 1 BORKO 2))"
    using submitGuess_in_progress[OF h1 h2 h3 h4, of 0] by (simp add: perform_def)
  have k: "8 < length (keys (playing 1 BORKO 2))"
    and c: "CorrectSpot \<in> set (classList (keys (playing 1 BORKO 2) ! 8))"
    using playing_second_row_keys by simp_all
  from correct_key_stays_correct[OF r k c, of "SubmitGuess 0"] r playing_second_row_keys
    playing_second_row_flipped
  show ?thesis by simp
qed

text \<open>
  C7: over any sequence of operations the high score never decreases. An operation either
  leaves the high score and the stored high score as they are, or raises the high score to
  the current score and stores that score. When the score is evaluated
  (\<^verbatim>\<open>#updateScore\<close>, the scoreboard having its two spans), the high score and the stored
  high score become the current score exactly when the current score is above the high
  score.
\<close>

theorem highscore_only_increases:
  "highscore s \<le> highscore (run dictionary ops s)
   \<and> ((highscore (fst (perform dictionary op s)) = highscore s
        \<and> localStorage (fst (perform dictionary op s)) = localStorage s)
      \<or> (highscore s < highscore (fst (perform dictionary op s))
        \<and> highscore (fst (perform dictionary op s)) = score (fst (perform dictionary op s))
        \<and> localStorage (fst (perform dictionary op s)) = Some (score (fst (perform dictionary op s)))))
   \<and> (scoreItem (scoreboard u) \<noteq> None \<and> highscoreItem (scoreboard u) \<noteq> None \<longrightarrow>
        highscore (updateScore u) = (if score u > highscore u then score u else highscore u)
      \<and> localStorage (updateScore u) = (if score u > highscore u then Some (score u) else localStorage u))"
  using run_highscore_mono[of s dictionary ops] perform_highscore[of dictionary op s]
  by (simp add: updateScore_highscore updateScore_localStorage)

theorem highscore_only_increases_witness:
  "highscore (playing 0 BORKA 2) = 2
   \<and> 2 \<le> highscore (run example_dictionary [PressKey 1041, DeleteKey, SubmitGuess 0] (playing 0 BORKA 2))
   \<and> highscore (updateScore ((playing 0 BORKA 2)\<lparr>score := 4\<rparr>)) = 4
   \<and> localStorage (updateScore ((playing 0 BORKA 2)\<lparr>score := 4\<rparr>)) = Some 4
   \<and> highscore (updateScore ((playing 0 BORKA 2)\<lparr>score := 1\<rparr>)) = 2
   \<and> localStorage (updateScore ((playing 0 BORKA 2)\<lparr>score := 1\<rparr>)) = Some 2"
proof -
  have p: "scoreItem (scoreboard ((playing 0 BORKA 2)\<lparr>score := 4\<rparr>)) \<noteq> None"
      "highscoreItem (scoreboard ((playing 0 BORKA 2)\<lparr>score := 4\<rparr>)) \<noteq> None"
      "scoreItem (scoreboard ((playing 0 BORKA 2)\<lparr>score := 1\<rparr>)) \<noteq> None"
      "highscoreItem (scoreboard ((playing 0 BORKA 2)\<lparr>score := 1\<rparr>)) \<noteq> None"
    by (simp_all add: playing_def)
  have v: "highscore (playing 0 BORKA 2) = 2" "localStorage (playing 0 BORKA 2) = Some 2"
    by (simp_all add: playing_def)
  from highscore_only_increases[of "playing 0 BORKA 2" example_dictionary
      "[PressKey 1041, DeleteKey, SubmitGuess 0]" "PressKey 1041" "(playing 0 BORKA 2)\<lparr>score := 4\<rparr>"]
    highscore_only_increases[of "playing 0 BORKA 2" example_dictionary
      "[]" "PressKey 1041" "(playing 0 BORKA 2)\<lparr>score := 1\<rparr>"] p v
  show ?thesis by simp
qed

text \<open>
  C9: in a well-formed game, a tile that carries a status keeps its text, letter and state
  when a key is pressed and when a letter is deleted. \<^verbatim>\<open>pressKey\<close> changes at most the
  first tile without a letter, \<^verbatim>\<open>deleteKey\<close> at most the last tile in the active state,
  and neither changes the number of tiles.
\<close>

theorem committed_tiles_immutable:
  assumes "wellFormed s"
    and "i < length (tiles s)"
    and "classified (tiles s ! i)"
  shows "tiles (pressKey k s) ! i = tiles s ! i
    \<and> tiles (deleteKey s) ! i = tiles s ! i
    \<and> length (tiles (pressKey k s)) = length (tiles s)
    \<and> length (tiles (deleteKey s)) = length (tiles s)
    \<and> (\<forall>j<length (tiles s). tiles (pressKey k s) ! j \<noteq> tiles s ! j \<longrightarrow>
          letter (tiles s ! j) = None \<and> (\<forall>j'<j. letter (tiles s ! j') \<noteq> None))
    \<and> (\<forall>j<length (tiles s). tiles (deleteKey s) ! j \<noteq> tiles s ! j \<longrightarrow>
          state (tiles s ! j) = Some ActiveSpot
          \<and> (\<forall>j'. j < j' \<and> j' < length (tiles s) \<longrightarrow> state (tiles s ! j') \<noteq> Some ActiveSpot))"
proof -
  from assms(3) have st: "state (tiles s ! i) \<noteq> None" "state (tiles s ! i) \<noteq> Some ActiveSpot"
    by (auto simp: classified_def)
  with wellFormed_nth[OF assms(1,2)] have lt: "letter (tiles s ! i) \<noteq> None" by simp
  have press: "tiles (pressKey k s) ! j \<noteq> tiles s ! j \<Longrightarrow>
      letter (tiles s ! j) = None \<and> (\<forall>j'<j. letter (tiles s ! j') \<noteq> None)" for j
    using pressKey_tiles[of k s] by (auto simp: nth_list_update split: if_splits)
  have del: "tiles (deleteKey s) ! j \<noteq> tiles s ! j \<Longrightarrow>
      state (tiles s ! j) = Some ActiveSpot
      \<and> (\<forall>j'. j < j' \<and> j' < length (tiles s) \<longrightarrow> state (tiles s ! j') \<noteq> Some ActiveSpot)" for j
    using deleteKey_tiles[of s] by (auto simp: nth_list_update split: if_splits)
  from press[of i] lt have "tiles (pressKey k s) ! i = tiles s ! i" by blast
  moreover from del[of i] st have "tiles (deleteKey s) ! i = tiles s ! i" by blast
  ultimately show ?thesis using press del by simp
qed

theorem committed_tiles_immutable_witness:
  "classified (tiles (playing 1 [1041] 0) ! 3)
   \<and> tiles (pressKey 1086 (playing 1 [1041] 0)) ! 3 = tiles (playing 1 [1041] 0) ! 3
   \<and> tiles (deleteKey (playing 1 [1041] 0)) ! 3 = tiles (playing 1 [1041] 0) ! 3
   \<and> tiles (pressKey 1086 (playing 1 [1041] 0)) ! 6 \<noteq> tiles (playing 1 [1041] 0) ! 6
   \<and> tiles (deleteKey (playing 1 [1041] 0)) ! 5 \<noteq> tiles (playing 1 [1041] 0) ! 5"
proof -
  have h1: "wellFormed (playing 1 [1041] 0)"
    and h2: "3 < length (tiles (playing 1 [1041] 0))"
    and h3: "classified (tiles (playing 1 [1041] 0) ! 3)"
    using playing_second_row_tile by simp_all
  have p: "tiles (pressKey 1086 (playing 1 [1041] 0)) ! 6 \<noteq> tiles (playing 1 [1041] 0) ! 6"
    by (simp add: pressKey_def activeTiles_def positions_def toLocaleUpperCase_def example_defs)
  have d: "tiles (deleteKey (playing 1 [1041] 0)) ! 5 \<noteq> tiles (playing 1 [1041] 0) ! 5"
    by (simp add: deleteKey_def resetTile_def example_defs)
  from committed_tiles_immutable[OF h1 h2 h3, of 1086] h3 p d show ?thesis by simp
qed

end
